theory Spec2Isabelle
  imports Main "HOL-Library.Word"
begin

section \<open>Strings and byte literals of main.go\<close>

text \<open>
  A Go string is a sequence of bytes, as an Isabelle \<open>string\<close> is. The source's literals
  that are not ASCII are written here by their UTF-8 bytes, named after their meaning.
\<close>

type_synonym byte = "8 word"

definition zh_download :: string where
  "zh_download = [CHR 0xE4, CHR 0xB8, CHR 0x8B, CHR 0xE8, CHR 0xBD, CHR 0xBD]"

definition zh_compress :: string where
  "zh_compress = [CHR 0xE5, CHR 0x8E, CHR 0x8B, CHR 0xE7, CHR 0xBC, CHR 0xA9]"

definition zh_not_found :: string where
  "zh_not_found = [CHR 0xE6, CHR 0x9C, CHR 0xAA, CHR 0xE6, CHR 0x89, CHR 0xBE, CHR 0xE5, CHR 0x88, CHR 0xB0]"

definition zh_extract :: string where
  "zh_extract = [CHR 0xE8, CHR 0xA7, CHR 0xA3, CHR 0xE5, CHR 0x8E, CHR 0x8B]"

definition zh_done :: string where
  "zh_done = [CHR 0xE5, CHR 0xAE, CHR 0x8C, CHR 0xE6, CHR 0x88, CHR 0x90]"

definition zh_version :: string where
  "zh_version = [CHR 0xE7, CHR 0x89, CHR 0x88, CHR 0xE6, CHR 0x9C, CHR 0xAC]"

definition down_arrow :: string where
  "down_arrow = [CHR 0xE2, CHR 0xAC, CHR 0x87, CHR 0xEF, CHR 0xB8, CHR 0x8F]"

definition CR :: char where
  "CR = CHR 0x0D"

definition LF :: char where
  "LF = CHR 0x0A"

text \<open>\<open>strings.HasPrefix\<close> and \<open>strings.HasSuffix\<close>, as the Go library writes them.\<close>

definition HasPrefix :: "string \<Rightarrow> string \<Rightarrow> bool" where
  "HasPrefix s prefix = (length prefix \<le> length s \<and> take (length prefix) s = prefix)"

definition HasSuffix :: "string \<Rightarrow> string \<Rightarrow> bool" where
  "HasSuffix s suffix = (length suffix \<le> length s \<and> drop (length s - length suffix) s = suffix)"

section \<open>Errors and results\<close>

text \<open>
  The errors main.go makes itself are the three \<open>fmt.Errorf\<close> values (the spec's
  NotFoundError, carrying the message); every other error is handed up from a library call.
  A function declared to return \<open>error\<close> returns \<open>OK\<close> for nil, or does not return
  because it panicked.
\<close>

datatype lib_error = TransportError | DecodeError | FormatError | IOError

datatype error = NotFoundError string | Lib lib_error

datatype result = OK | Err error | Panicked

definition of_lib :: "lib_error option \<Rightarrow> result" where
  "of_lib e = (case e of None \<Rightarrow> OK | Some x \<Rightarrow> Err (Lib x))"

section \<open>Readers, the environment and the world\<close>

text \<open>
  An \<open>io.Reader\<close> is what its successive \<open>Read\<close> calls deliver: the chunks, then
  io.EOF (\<open>fin = None\<close>) or an error.
\<close>

record reader =
  chunks :: "byte list list"
  fin :: "lib_error option"

record response =
  StatusCode :: int
  ContentLength :: "64 word"
  Body :: reader

text \<open>
  The value of an \<open>interface{}\<close> field that encoding/json filled: nil (JSON null, or the
  key absent), a bool, a string, or a value of another dynamic type (float64, slice, map).
\<close>

datatype iface = Nil_iface | Bool_iface bool | String_iface string | Other_iface

record NodeVersion =
  Version :: string
  LTS :: iface

record zip_file =
  Name :: string
  Open :: "lib_error + reader"

record tar_header =
  Header_Name :: string
  content :: reader

text \<open>What \<open>tr.Next()\<close> delivers: the entries, then io.EOF (\<open>ending = None\<close>) or an error.\<close>

record tar_archive =
  entries :: "tar_header list"
  ending :: "lib_error option"

text \<open>
  The environment holds what the program cannot decide: the network, the library decoders
  and encoder, the faults of the file system and the clock.
  \<^item> \<open>capacity p = Some k\<close>: the file at \<open>p\<close> cannot grow beyond \<open>k\<close> bytes; the write that
    would pass it is short and fails.
  \<^item> \<open>read_err p = Some (k, e)\<close>: reading the file at \<open>p\<close> fails with \<open>e\<close> after \<open>k\<close> chunks.
  \<^item> \<open>clock n\<close>: what the \<open>n\<close>-th call of \<open>time.Now()\<close> returns, in nanoseconds since the
    zero \<open>time.Time\<close>.
  \<^item> the zstd encoder: the number of goroutines it may use (GOMAXPROCS; with 1 it works
    synchronously), its block size, and the bytes it produces: \<open>zstd_encode\<close> is the
    frame of a whole input, \<open>zstd_header\<close> the frame header of a stream,
    \<open>zstd_block h b last\<close> the block for the input \<open>b\<close> that follows the input \<open>h\<close>, and
    \<open>zstd_crc\<close> the checksum that ends a stream.
\<close>

record env =
  http_Get :: "string \<Rightarrow> lib_error + response"
  json_Decode :: "reader \<Rightarrow> lib_error + NodeVersion list"
  zip_decode :: "reader \<Rightarrow> lib_error + zip_file list"
  xz_NewReader :: "reader \<Rightarrow> lib_error + tar_archive"
  zstd_NewWriter_err :: "lib_error option"
  zstd_concurrent :: nat
  zstd_blockSize :: nat
  zstd_encode :: "byte list \<Rightarrow> byte list"
  zstd_header :: "byte list"
  zstd_block :: "byte list \<Rightarrow> byte list \<Rightarrow> bool \<Rightarrow> byte list"
  zstd_crc :: "byte list \<Rightarrow> byte list"
  open_err :: "string \<Rightarrow> lib_error option"
  create_err :: "string \<Rightarrow> lib_error option"
  stat_err :: "string \<Rightarrow> lib_error option"
  read_err :: "string \<Rightarrow> (nat \<times> lib_error) option"
  capacity :: "string \<Rightarrow> nat option"
  remove_fails :: "string \<Rightarrow> bool"
  bufsize :: nat
  clock :: "nat \<Rightarrow> int"

text \<open>
  What standard output receives: a text, or the throttled progress line
  \<open>"\r%s %.1f%%"\<close>, kept as the prefix and the two counters its percentage is computed from
  (the floating-point division and its formatting are not modelled).
\<close>

datatype emission = Text string | Percent string "64 word" "64 word"

record world =
  files :: "string \<rightharpoonup> byte list"
  console :: "emission list"
  ticks :: nat

definition printf :: "string \<Rightarrow> world \<Rightarrow> world" where
  "printf s w = w\<lparr>console := console w @ [Text s]\<rparr>"

section \<open>The file system\<close>

text \<open>A file is read in pieces of the buffer's size (a buffer of size 0 is no Go buffer;
  the content then comes in one piece).\<close>

function chunked :: "nat \<Rightarrow> 'a list \<Rightarrow> 'a list list" where
  "chunked n xs =
     (if xs = [] then [] else if n = 0 then [xs] else take n xs # chunked n (drop n xs))"
  by pat_completeness auto
termination
  by (relation "measure (\<lambda>(n, xs). length xs)") auto

definition file_reader :: "env \<Rightarrow> string \<Rightarrow> byte list \<Rightarrow> reader" where
  "file_reader env path bs =
     (case read_err env path of
        None \<Rightarrow> \<lparr>chunks = chunked (bufsize env) bs, fin = None\<rparr>
      | Some (k, e) \<Rightarrow> \<lparr>chunks = take k (chunked (bufsize env) bs), fin = Some e\<rparr>)"

text \<open>
  \<open>os.Open\<close>. The reader holds the content the file has when it is opened: the program
  never writes a file while it reads it (the temporary, the intermediate and the output
  paths differ).
\<close>

definition os_Open :: "env \<Rightarrow> string \<Rightarrow> world \<Rightarrow> lib_error + reader" where
  "os_Open env path w =
     (case open_err env path of
        Some e \<Rightarrow> Inl e
      | None \<Rightarrow> (case files w path of
                  None \<Rightarrow> Inl IOError
                | Some bs \<Rightarrow> Inr (file_reader env path bs)))"

text \<open>\<open>os.Create\<close>: the file is created, or truncated when it exists.\<close>

definition os_Create :: "env \<Rightarrow> string \<Rightarrow> world \<Rightarrow> lib_error + world" where
  "os_Create env path w =
     (case create_err env path of
        Some e \<Rightarrow> Inl e
      | None \<Rightarrow> Inr (w\<lparr>files := (files w)(path \<mapsto> [])\<rparr>))"

text \<open>\<open>(*os.File).Write\<close> on the file created at \<open>path\<close>.\<close>

definition file_Write :: "env \<Rightarrow> string \<Rightarrow> byte list \<Rightarrow> world \<Rightarrow> lib_error option \<times> string \<times> world" where
  "file_Write env path c w =
     (case files w path of
        None \<Rightarrow> (Some IOError, path, w)
      | Some cur \<Rightarrow>
          (case capacity env path of
             None \<Rightarrow> (None, path, w\<lparr>files := (files w)(path \<mapsto> cur @ c)\<rparr>)
           | Some k \<Rightarrow>
               if length cur + length c \<le> k
               then (None, path, w\<lparr>files := (files w)(path \<mapsto> cur @ c)\<rparr>)
               else (Some IOError, path,
                     w\<lparr>files := (files w)(path \<mapsto> cur @ take (k - length cur) c)\<rparr>)))"

text \<open>\<open>os.Remove\<close>; the program ignores its error everywhere.\<close>

definition os_Remove :: "env \<Rightarrow> string \<Rightarrow> world \<Rightarrow> world" where
  "os_Remove env path w =
     (if remove_fails env path then w else w\<lparr>files := (files w)(path := None)\<rparr>)"

text \<open>\<open>(*os.File).Stat\<close> on the file opened at \<open>path\<close>: the error, or the size.\<close>

definition Stat :: "env \<Rightarrow> string \<Rightarrow> world \<Rightarrow> lib_error + 64 word" where
  "Stat env path w =
     (case stat_err env path of
        Some e \<Rightarrow> Inl e
      | None \<Rightarrow> (case files w path of
                  None \<Rightarrow> Inl IOError
                | Some bs \<Rightarrow> Inr (of_nat (length bs))))"

section \<open>The progress writer\<close>

text \<open>
  \<open>time.Time\<close> is read as nanoseconds since the zero time, and \<open>Time.Sub\<close> saturates at
  the least and the greatest \<open>time.Duration\<close> (an int64 of nanoseconds).
\<close>

definition maxDuration :: int where
  "maxDuration = 2 ^ 63 - 1"

definition minDuration :: int where
  "minDuration = - (2 ^ 63)"

definition Millisecond :: int where
  "Millisecond = 1000000"

definition Sub :: "int \<Rightarrow> int \<Rightarrow> int" where
  "Sub t u =
     (let d = t - u
      in if maxDuration < d then maxDuration else if d < minDuration then minDuration else d)"

record ProgressWriter =
  Total :: "64 word"
  Written :: "64 word"
  LastUpdate :: int
  Prefix :: string

text \<open>
  \<open>(pw *ProgressWriter) Write(p []byte) (int, error)\<close>: the count and the error it returns,
  the writer and the world after it. \<open>Written\<close> is an int64: the addition wraps.
\<close>

definition Write :: "env \<Rightarrow> ProgressWriter \<Rightarrow> byte list \<Rightarrow> world \<Rightarrow> (int \<times> lib_error option) \<times> ProgressWriter \<times> world" where
  "Write env pw p w =
     (let n = int (length p);
          pw1 = pw\<lparr>Written := Written pw + of_int n\<rparr>;
          now = clock env (ticks w);
          w1 = w\<lparr>ticks := ticks w + 1\<rparr>
      in if 300 * Millisecond < Sub now (LastUpdate pw1)
         then ((n, None), pw1\<lparr>LastUpdate := now\<rparr>,
               w1\<lparr>console := console w1 @ [Percent (Prefix pw1) (Written pw1) (Total pw1)]\<rparr>)
         else ((n, None), pw1, w1))"

section \<open>io.Copy and io.TeeReader\<close>

text \<open>
  \<open>io.Copy(dst, src)\<close> reads \<open>src\<close> until io.EOF or an error and writes every chunk that is
  not empty to \<open>dst\<close>; it stops at the first error of either side. The destination is an
  \<open>io.Writer\<close>: its \<open>Write\<close> and its state \<open>d\<close>.
\<close>

fun copy_chunks :: "('d \<Rightarrow> byte list \<Rightarrow> world \<Rightarrow> lib_error option \<times> 'd \<times> world) \<Rightarrow> 'd \<Rightarrow> byte list list \<Rightarrow> lib_error option \<Rightarrow> world \<Rightarrow> lib_error option \<times> 'd \<times> world" where
  "copy_chunks wr d [] e w = (e, d, w)"
| "copy_chunks wr d (c # cs) e w =
     (if c = [] then copy_chunks wr d cs e w
      else (case wr d c w of
              (Some ew, d1, w1) \<Rightarrow> (Some ew, d1, w1)
            | (None, d1, w1) \<Rightarrow> copy_chunks wr d1 cs e w1))"

definition io_Copy :: "('d \<Rightarrow> byte list \<Rightarrow> world \<Rightarrow> lib_error option \<times> 'd \<times> world) \<Rightarrow> 'd \<Rightarrow> reader \<Rightarrow> world \<Rightarrow> lib_error option \<times> 'd \<times> world" where
  "io_Copy wr d src w = copy_chunks wr d (chunks src) (fin src) w"

text \<open>
  \<open>io.Copy(dst, io.TeeReader(src, pw))\<close>: each chunk the tee reads goes to \<open>pw.Write\<close>
  first, then to \<open>dst\<close>. An error of \<open>pw.Write\<close> would be the tee's read error, with the
  count \<open>pw.Write\<close> returned: io.Copy writes that many bytes and stops.
\<close>

fun tee_chunks :: "env \<Rightarrow> ('d \<Rightarrow> byte list \<Rightarrow> world \<Rightarrow> lib_error option \<times> 'd \<times> world) \<Rightarrow> 'd \<Rightarrow> byte list list \<Rightarrow> lib_error option \<Rightarrow> ProgressWriter \<Rightarrow> world \<Rightarrow> lib_error option \<times> 'd \<times> ProgressWriter \<times> world" where
  "tee_chunks env wr d [] e pw w = (e, d, pw, w)"
| "tee_chunks env wr d (c # cs) e pw w =
     (if c = [] then tee_chunks env wr d cs e pw w
      else (case Write env pw c w of
              ((n, Some ep), pw1, w1) \<Rightarrow>
                (if n \<le> 0 then (Some ep, d, pw1, w1)
                 else (case wr d (take (nat n) c) w1 of
                         (Some ew, d1, w2) \<Rightarrow> (Some ew, d1, pw1, w2)
                       | (None, d1, w2) \<Rightarrow> (Some ep, d1, pw1, w2)))
            | ((n, None), pw1, w1) \<Rightarrow>
                (case wr d c w1 of
                   (Some ew, d1, w2) \<Rightarrow> (Some ew, d1, pw1, w2)
                 | (None, d1, w2) \<Rightarrow> tee_chunks env wr d1 cs e pw1 w2)))"

definition io_Copy_Tee :: "env \<Rightarrow> ('d \<Rightarrow> byte list \<Rightarrow> world \<Rightarrow> lib_error option \<times> 'd \<times> world) \<Rightarrow> 'd \<Rightarrow> reader \<Rightarrow> ProgressWriter \<Rightarrow> world \<Rightarrow> lib_error option \<times> 'd \<times> ProgressWriter \<times> world" where
  "io_Copy_Tee env wr d src pw w = tee_chunks env wr d (chunks src) (fin src) pw w"

section \<open>VersionResolver: fetchLatestLTS\<close>

definition index_url :: string where
  "index_url = ''https://nodejs.org/dist/index.json''"

text \<open>The loop \<open>for _, v := range versions\<close> of fetchLatestLTS and the error after it.\<close>

fun range_versions :: "NodeVersion list \<Rightarrow> error + string" where
  "range_versions [] = Inl (NotFoundError (zh_not_found @ '' LTS '' @ zh_version))"
| "range_versions (v # vs) =
     (if LTS v \<noteq> Bool_iface False \<and> LTS v \<noteq> Nil_iface then Inr (Version v)
      else range_versions vs)"

definition fetchLatestLTS :: "env \<Rightarrow> error + string" where
  "fetchLatestLTS env =
     (case http_Get env index_url of
        Inl e \<Rightarrow> Inl (Lib e)
      | Inr resp \<Rightarrow>
          (case json_Decode env (Body resp) of
             Inl e \<Rightarrow> Inl (Lib e)
           | Inr versions \<Rightarrow> range_versions versions))"

section \<open>TargetPipeline: buildURL, downloadFile, the extractors, compressZstd\<close>

definition buildURL :: "string \<Rightarrow> string \<Rightarrow> string" where
  "buildURL version platform =
     (let ext = (if HasPrefix platform ''win'' then ''.zip'' else ''.tar.xz'')
      in ''https://nodejs.org/dist/'' @ version @ ''/node-'' @ version @ ''-'' @ platform @ ext)"

definition downloadFile :: "env \<Rightarrow> string \<Rightarrow> string \<Rightarrow> string \<Rightarrow> world \<Rightarrow> result \<times> world" where
  "downloadFile env filename url platform w =
     (case http_Get env url of
        Inl e \<Rightarrow> (Err (Lib e), w)
      | Inr resp \<Rightarrow>
          (case os_Create env filename w of
             Inl e \<Rightarrow> (Err (Lib e), w)
           | Inr w1 \<Rightarrow>
               (let pw = \<lparr>Total = ContentLength resp, Written = 0, LastUpdate = 0,
                          Prefix = zh_download @ ''['' @ platform @ '']''\<rparr>
                in case io_Copy_Tee env (file_Write env) filename (Body resp) pw w1 of
                     (err, out, pw1, w2) \<Rightarrow>
                       (of_lib err,
                        printf (CR # zh_download @ ''['' @ platform @ ''] 100%'' @ [LF]) w2))))"

text \<open>\<open>zip.OpenReader(zipPath)\<close>: the file is opened and its central directory decoded.\<close>

definition zip_OpenReader :: "env \<Rightarrow> string \<Rightarrow> world \<Rightarrow> lib_error + zip_file list" where
  "zip_OpenReader env zipPath w =
     (case os_Open env zipPath w of Inl e \<Rightarrow> Inl e | Inr rd \<Rightarrow> zip_decode env rd)"

text \<open>The loop \<open>for _, f := range r.File\<close> of extractNodeFromZip and the error after it.\<close>

fun range_File :: "env \<Rightarrow> string \<Rightarrow> string \<Rightarrow> zip_file list \<Rightarrow> world \<Rightarrow> result \<times> world" where
  "range_File env outFile platform [] w =
     (Err (NotFoundError (zh_not_found @ '' node.exe'')), w)"
| "range_File env outFile platform (f # fs) w =
     (if HasSuffix (Name f) ''node.exe''
      then (case Open f of
              Inl e \<Rightarrow> (Err (Lib e), w)
            | Inr rc \<Rightarrow>
                (case os_Create env outFile w of
                   Inl e \<Rightarrow> (Err (Lib e), w)
                 | Inr w1 \<Rightarrow>
                     (case io_Copy (file_Write env) outFile rc w1 of
                        (err, out, w2) \<Rightarrow>
                          (of_lib err,
                           printf (zh_extract @ ''['' @ platform @ ''] node.exe '' @ zh_done @ [LF]) w2))))
      else range_File env outFile platform fs w)"

definition extractNodeFromZip :: "env \<Rightarrow> string \<Rightarrow> string \<Rightarrow> string \<Rightarrow> world \<Rightarrow> result \<times> world" where
  "extractNodeFromZip env zipPath outFile platform w =
     (case zip_OpenReader env zipPath w of
        Inl e \<Rightarrow> (Err (Lib e), w)
      | Inr fs \<Rightarrow> range_File env outFile platform fs w)"

text \<open>The loop \<open>for { h, err := tr.Next() ... }\<close> of extractNodeFromTarXZ and the error
  after it.\<close>

fun tar_loop :: "env \<Rightarrow> string \<Rightarrow> string \<Rightarrow> tar_header list \<Rightarrow> lib_error option \<Rightarrow> world \<Rightarrow> result \<times> world" where
  "tar_loop env outFile platform [] e w =
     (case e of
        None \<Rightarrow> (Err (NotFoundError (zh_not_found @ '' bin/node'')), w)
      | Some x \<Rightarrow> (Err (Lib x), w))"
| "tar_loop env outFile platform (h # hs) e w =
     (if HasSuffix (Header_Name h) ''/bin/node''
      then (case os_Create env outFile w of
              Inl x \<Rightarrow> (Err (Lib x), w)
            | Inr w1 \<Rightarrow>
                (case io_Copy (file_Write env) outFile (content h) w1 of
                   (err, out, w2) \<Rightarrow>
                     (of_lib err,
                      printf (zh_extract @ ''['' @ platform @ ''] bin/node '' @ zh_done @ [LF]) w2)))
      else tar_loop env outFile platform hs e w)"

definition extractNodeFromTarXZ :: "env \<Rightarrow> string \<Rightarrow> string \<Rightarrow> string \<Rightarrow> world \<Rightarrow> result \<times> world" where
  "extractNodeFromTarXZ env tarxzPath outFile platform w =
     (case os_Open env tarxzPath w of
        Inl e \<Rightarrow> (Err (Lib e), w)
      | Inr f \<Rightarrow>
          (case xz_NewReader env f of
             Inl e \<Rightarrow> (Err (Lib e), w)
           | Inr tr \<Rightarrow> tar_loop env outFile platform (entries tr) (ending tr) w))"

text \<open>
  The zstd encoder over the output file, after \<open>Encoder\<close> of
  github.com/klauspost/compress/zstd: the input of the block being filled, the input of
  the blocks handed on, what was written, and the two errors it keeps (\<open>s.err\<close>, and
  \<open>s.writeErr\<close> of a block written by a goroutine).
\<close>

record encoder =
  sink :: string
  filling :: "byte list"
  history :: "byte list"
  headerWritten :: bool
  eofWritten :: bool
  fullFrameWritten :: bool
  s_err :: "lib_error option"
  s_writeErr :: "lib_error option"

text \<open>\<open>zstd.NewWriter(out)\<close> with no options.\<close>

definition zstd_NewWriter :: "env \<Rightarrow> string \<Rightarrow> lib_error + encoder" where
  "zstd_NewWriter env out =
     (case zstd_NewWriter_err env of
        Some e \<Rightarrow> Inl e
      | None \<Rightarrow> Inr \<lparr>sink = out, filling = [], history = [], headerWritten = False,
                      eofWritten = False, fullFrameWritten = False, s_err = None,
                      s_writeErr = None\<rparr>)"

definition sink_Write :: "env \<Rightarrow> encoder \<Rightarrow> byte list \<Rightarrow> world \<Rightarrow> lib_error option \<times> world" where
  "sink_Write env enc bs w = (case file_Write env (sink enc) bs w of (e, p, w1) \<Rightarrow> (e, w1))"

text \<open>
  The part of \<open>nextBlock\<close> past the frame header. A block with no input is written only as
  the last one. With one goroutine the block is encoded and written at once. Otherwise it
  is handed to a goroutine, which writes it unless the write before it failed; its own
  failure is kept in \<open>s.writeErr\<close> and the call returns nil.
\<close>

definition write_block :: "env \<Rightarrow> bool \<Rightarrow> encoder \<Rightarrow> world \<Rightarrow> lib_error option \<times> encoder \<times> world" where
  "write_block env final enc w =
     (if filling enc = []
      then (if final
            then (case sink_Write env enc (zstd_block env (history enc) [] True) w of
                    (e, w1) \<Rightarrow> (e, enc\<lparr>s_err := e, eofWritten := True\<rparr>, w1))
            else (None, enc, w))
      else (let enc1 = enc\<lparr>history := history enc @ filling enc, filling := [],
                            eofWritten := (eofWritten enc \<or> final)\<rparr>
            in if zstd_concurrent env = 1
               then (case sink_Write env enc (zstd_block env (history enc) (filling enc) final) w of
                       (e, w1) \<Rightarrow> (e, enc1\<lparr>s_err := e\<rparr>, w1))
               else (case s_writeErr enc of
                       Some x \<Rightarrow> (None, enc1\<lparr>s_err := Some x\<rparr>, w)
                     | None \<Rightarrow>
                         (case sink_Write env enc (zstd_block env (history enc) (filling enc) final) w of
                            (e, w1) \<Rightarrow> (None, enc1\<lparr>s_writeErr := e\<rparr>, w1)))))"

text \<open>
  \<open>(e *Encoder) nextBlock(final bool)\<close>. An error kept from before is returned and nothing
  is written. Before the header is out, a final call writes nothing for no input, and the
  whole frame at once for what is in the block; any other first call writes the header.
\<close>

definition nextBlock :: "env \<Rightarrow> bool \<Rightarrow> encoder \<Rightarrow> world \<Rightarrow> lib_error option \<times> encoder \<times> world" where
  "nextBlock env final enc w =
     (case s_err enc of
        Some x \<Rightarrow> (Some x, enc, w)
      | None \<Rightarrow>
          if headerWritten enc
          then write_block env (final \<and> \<not> eofWritten enc) enc w
          else if final \<and> filling enc = []
          then (None, enc\<lparr>headerWritten := True, fullFrameWritten := True, eofWritten := True\<rparr>, w)
          else if final
          then (case sink_Write env enc (zstd_encode env (filling enc)) w of
                  (Some x, w1) \<Rightarrow> (Some x, enc\<lparr>s_err := Some x\<rparr>, w1)
                | (None, w1) \<Rightarrow>
                    (None, enc\<lparr>history := history enc @ filling enc, filling := [],
                               headerWritten := True, fullFrameWritten := True,
                               eofWritten := True\<rparr>, w1))
          else (case sink_Write env enc (zstd_header env) w of
                  (Some x, w1) \<Rightarrow> (Some x, enc\<lparr>headerWritten := True, s_err := Some x\<rparr>, w1)
                | (None, w1) \<Rightarrow>
                    write_block env (final \<and> \<not> eofWritten enc) (enc\<lparr>headerWritten := True\<rparr>) w1))"

text \<open>
  \<open>(e *Encoder) Close()\<close>: the last block, then, for a stream, the checksum, unless an
  error is kept. compressZstd closes the encoder in a \<open>defer\<close> and drops the error.
\<close>

definition enc_Close :: "env \<Rightarrow> encoder \<Rightarrow> world \<Rightarrow> lib_error option \<times> world" where
  "enc_Close env enc w =
     (case nextBlock env True enc w of
        (Some x, enc1, w1) \<Rightarrow> (Some x, w1)
      | (None, enc1, w1) \<Rightarrow>
          if fullFrameWritten enc1 then (s_err enc1, w1)
          else (case s_err enc1 of
                  Some x \<Rightarrow> (Some x, w1)
                | None \<Rightarrow>
                    (case s_writeErr enc1 of
                       Some x \<Rightarrow> (Some x, w1)
                     | None \<Rightarrow> sink_Write env enc1 (zstd_crc env (history enc1)) w1)))"

text \<open>
  What the source of a copy passes its bytes through: nothing, or the progress writer of
  an \<open>io.TeeReader\<close>. The result is the count and the error of the \<open>Read\<close>.
\<close>

definition tee_Write :: "env \<Rightarrow> ProgressWriter option \<Rightarrow> byte list \<Rightarrow> world \<Rightarrow> (int \<times> lib_error option) \<times> ProgressWriter option \<times> world" where
  "tee_Write env tee got w =
     (case tee of
        None \<Rightarrow> ((int (length got), None), None, w)
      | Some pw \<Rightarrow> (case Write env pw got w of (r, pw1, w1) \<Rightarrow> (r, Some pw1, w1)))"

text \<open>
  \<open>io.Copy(enc, src)\<close> is \<open>enc.ReadFrom(src)\<close>, since the encoder is an \<open>io.ReaderFrom\<close>.
  Each \<open>Read\<close> goes into the space left in the block, so it takes no more of what the
  source has than fits, and the rest stays with the source (the block size is positive and
  a full block is handed on, so there is space). A full block goes to \<open>nextBlock\<close>; at
  io.EOF the bytes stay in the block for \<open>Close\<close>; any other error of the source is kept
  in \<open>s.err\<close> and returned.
\<close>

definition space :: "env \<Rightarrow> encoder \<Rightarrow> nat" where
  "space env enc = max 1 (zstd_blockSize env - length (filling enc))"

definition unread :: "nat \<Rightarrow> byte list \<Rightarrow> byte list list \<Rightarrow> byte list list" where
  "unread k c cs = (if drop k c = [] then cs else drop k c # cs)"

function read_loop :: "env \<Rightarrow> encoder \<Rightarrow> byte list list \<Rightarrow> lib_error option \<Rightarrow> ProgressWriter option \<Rightarrow> world \<Rightarrow> lib_error option \<times> encoder \<times> ProgressWriter option \<times> world" where
  "read_loop env enc [] e tee w =
     (case e of
        None \<Rightarrow> (None, enc, tee, w)
      | Some x \<Rightarrow> (Some x, enc\<lparr>s_err := Some x\<rparr>, tee, w))"
| "read_loop env enc (c # cs) e tee w =
     (if c = [] then read_loop env enc cs e tee w
      else (let got = take (space env enc) c;
                cs1 = unread (space env enc) c cs
            in case tee_Write env tee got w of
                 ((n, Some x), tee1, w1) \<Rightarrow>
                   (Some x, enc\<lparr>filling := filling enc @ take (nat n) got, s_err := Some x\<rparr>,
                    tee1, w1)
               | ((n, None), tee1, w1) \<Rightarrow>
                   (let enc1 = enc\<lparr>filling := filling enc @ got\<rparr>
                    in if length (filling enc1) < zstd_blockSize env
                       then read_loop env enc1 cs1 e tee1 w1
                       else (case nextBlock env False enc1 w1 of
                               (Some x, enc2, w2) \<Rightarrow> (Some x, enc2, tee1, w2)
                             | (None, enc2, w2) \<Rightarrow> read_loop env enc2 cs1 e tee1 w2))))"
  by pat_completeness auto
termination
  by (relation "measure (\<lambda>(env, enc, cs, e, tee, w). length (concat cs) + length cs)")
    (auto simp: Let_def space_def unread_def)

definition ReadFrom :: "env \<Rightarrow> encoder \<Rightarrow> reader \<Rightarrow> ProgressWriter option \<Rightarrow> world \<Rightarrow> lib_error option \<times> encoder \<times> ProgressWriter option \<times> world" where
  "ReadFrom env enc src tee w =
     (if filling enc = [] then read_loop env enc (chunks src) (fin src) tee w
      else (case nextBlock env False enc w of
              (Some x, enc1, w1) \<Rightarrow> (Some x, enc1, tee, w1)
            | (None, enc1, w1) \<Rightarrow> read_loop env enc1 (chunks src) (fin src) tee w1))"

text \<open>
  compressZstd. \<open>info, _ := in.Stat()\<close> leaves \<open>info\<close> nil when Stat fails, and
  \<open>info.Size()\<close> then panics; the deferred \<open>enc.Close()\<close> still runs.
\<close>

definition compressZstd :: "env \<Rightarrow> string \<Rightarrow> string \<Rightarrow> string \<Rightarrow> world \<Rightarrow> result \<times> world" where
  "compressZstd env input output platform w =
     (case os_Open env input w of
        Inl e \<Rightarrow> (Err (Lib e), w)
      | Inr inp \<Rightarrow>
          (let info = Stat env input w
           in case os_Create env output w of
                Inl e \<Rightarrow> (Err (Lib e), w)
              | Inr w1 \<Rightarrow>
                  (case zstd_NewWriter env output of
                     Inl e \<Rightarrow> (Err (Lib e), w1)
                   | Inr enc \<Rightarrow>
                       (case info of
                          Inl e \<Rightarrow> (Panicked, snd (enc_Close env enc w1))
                        | Inr sz \<Rightarrow>
                            (let pw = \<lparr>Total = sz, Written = 0, LastUpdate = 0,
                                       Prefix = zh_compress @ ''['' @ platform @ '']''\<rparr>
                             in case ReadFrom env enc inp (Some pw) w1 of
                                  (err, enc1, tee1, w2) \<Rightarrow>
                                    (of_lib err,
                                     snd (enc_Close env enc1
                                            (printf (CR # zh_compress @ ''['' @ platform @ ''] 100%'' @ [LF]) w2))))))))"

text \<open>The choice of the extractor in processTarget (lines 115 to 123).\<close>

definition extractNode :: "env \<Rightarrow> string \<Rightarrow> string \<Rightarrow> string \<Rightarrow> world \<Rightarrow> result \<times> world" where
  "extractNode env tmpFile exeFile platform w =
     (if HasPrefix platform ''win''
      then extractNodeFromZip env tmpFile exeFile platform w
      else extractNodeFromTarXZ env tmpFile exeFile platform w)"

text \<open>Lines 114 to 129 of processTarget: what runs once \<open>defer os.Remove(tmpFile)\<close> is set.\<close>

definition extract_and_compress :: "env \<Rightarrow> string \<Rightarrow> string \<Rightarrow> string \<Rightarrow> world \<Rightarrow> result \<times> world" where
  "extract_and_compress env tmpFile outFile platform w =
     (let exeFile = outFile @ ''.nodebin''
      in case extractNode env tmpFile exeFile platform w of
           (OK, w1) \<Rightarrow>
             (case compressZstd env exeFile outFile platform w1 of
                (OK, w2) \<Rightarrow> (OK, os_Remove env exeFile w2)
              | (r, w2) \<Rightarrow> (r, w2))
         | (r, w1) \<Rightarrow> (r, w1))"

definition processTarget :: "env \<Rightarrow> string \<Rightarrow> string \<Rightarrow> string \<Rightarrow> world \<Rightarrow> result \<times> world" where
  "processTarget env version outFile platform w =
     (let url = buildURL version platform;
          w0 = printf (LF # down_arrow @ ''  '' @ zh_download @ '' '' @ url @ '' -> '' @ outFile @ [LF]) w;
          tmpFile = outFile @ ''.tmp''
      in case downloadFile env tmpFile url platform w0 of
           (OK, w1) \<Rightarrow>
             (case extract_and_compress env tmpFile outFile platform w1 of
                (r, w2) \<Rightarrow> (r, os_Remove env tmpFile w2))
         | (r, w1) \<Rightarrow> (r, w1))"

section \<open>BatchOrchestrator: the goroutines of main and the channel sem\<close>

text \<open>
  \<open>sem\<close> is a channel of \<open>struct{}\<close> with a buffer of 3: only the number of buffered
  elements matters. A goroutine is before its send \<open>sem <- struct{}{}\<close>, or between the
  send and the deferred receive \<open><-sem\<close> (it runs processTarget), or past the receive.
  A send blocks while the buffer is full, a receive while it is empty.
\<close>

definition targets :: "(string \<times> string) list" where
  "targets =
     [(''node_darwin_amd64.zst'', ''darwin-x64''),
      (''node_darwin_arm64.zst'', ''darwin-arm64''),
      (''node_linux_amd64.zst'', ''linux-x64''),
      (''node_linux_arm64.zst'', ''linux-arm64''),
      (''node_linux_armv7.zst'', ''linux-armv7l''),
      (''node_windows_amd64.zst'', ''win-x64''),
      (''node_windows_arm64.zst'', ''win-arm64''),
      (''node_windows_i386.zst'', ''win-x86'')]"

datatype goroutine = Waiting | Holding | Finished

record orchestrator =
  goroutines :: "goroutine list"
  sem :: nat

definition sem_cap :: nat where
  "sem_cap = 3"

definition main_start :: "nat \<Rightarrow> orchestrator" where
  "main_start n = \<lparr>goroutines = replicate n Waiting, sem = 0\<rparr>"

text \<open>The scheduler lets goroutine \<open>i\<close> take its next step; \<open>None\<close> when it cannot move.\<close>

definition step :: "nat \<Rightarrow> orchestrator \<Rightarrow> orchestrator option" where
  "step i s =
     (if length (goroutines s) \<le> i then None
      else (case goroutines s ! i of
              Waiting \<Rightarrow>
                if sem s < sem_cap
                then Some \<lparr>goroutines = (goroutines s)[i := Holding], sem = sem s + 1\<rparr>
                else None
            | Holding \<Rightarrow>
                if 0 < sem s
                then Some \<lparr>goroutines = (goroutines s)[i := Finished], sem = sem s - 1\<rparr>
                else None
            | Finished \<Rightarrow> None))"

text \<open>An interleaving is the list of the scheduler's choices.\<close>

fun run :: "nat list \<Rightarrow> orchestrator \<Rightarrow> orchestrator" where
  "run [] s = s"
| "run (i # sched) s = (case step i s of None \<Rightarrow> run sched s | Some s' \<Rightarrow> run sched s')"

definition holders :: "orchestrator \<Rightarrow> nat" where
  "holders s = length (filter (\<lambda>g. g = Holding) (goroutines s))"

text \<open>The emissions of the progress writer, as opposed to the texts printed elsewhere.\<close>

definition is_Percent :: "emission \<Rightarrow> bool" where
  "is_Percent x = (case x of Percent a b c \<Rightarrow> True | Text s \<Rightarrow> False)"

text \<open>The invariant of the orchestrator: every holder has one element in the channel.\<close>

definition slots_ok :: "orchestrator \<Rightarrow> bool" where
  "slots_ok s = (holders s = sem s \<and> sem s \<le> sem_cap)"

text \<open>One pass of the encoder's read loop: the encoder, the tee and the world after the
  \<open>Read\<close>.\<close>

definition pass_enc :: "env \<Rightarrow> encoder \<Rightarrow> byte list \<Rightarrow> encoder" where
  "pass_enc env enc c = enc\<lparr>filling := filling enc @ take (space env enc) c\<rparr>"

definition pass_tee :: "env \<Rightarrow> encoder \<Rightarrow> byte list \<Rightarrow> ProgressWriter option \<Rightarrow> world \<Rightarrow> ProgressWriter option" where
  "pass_tee env enc c tee w = fst (snd (tee_Write env tee (take (space env enc) c) w))"

definition pass_world :: "env \<Rightarrow> encoder \<Rightarrow> byte list \<Rightarrow> ProgressWriter option \<Rightarrow> world \<Rightarrow> world" where
  "pass_world env enc c tee w = snd (snd (tee_Write env tee (take (space env enc) c) w))"

section \<open>Concrete environments\<close>

text \<open>
  Small environments on which the definitions are evaluated. The encoder's bytes are a
  stand-in (the frame's magic number, then the input as it is, no checksum); files are read
  two bytes at a time; the clock advances 200 ms with every reading.
\<close>

definition toy_zstd :: "byte list \<Rightarrow> byte list" where
  "toy_zstd bs = [0x28, 0xB5, 0x2F, 0xFD] @ bs"

definition env0 :: env where
  "env0 = \<lparr>http_Get = (\<lambda>u. Inl TransportError), json_Decode = (\<lambda>r. Inl DecodeError),
     zip_decode = (\<lambda>r. Inl FormatError), xz_NewReader = (\<lambda>r. Inl FormatError),
     zstd_NewWriter_err = None, zstd_concurrent = 4, zstd_blockSize = 131072,
     zstd_encode = toy_zstd, zstd_header = [0x28, 0xB5, 0x2F, 0xFD],
     zstd_block = (\<lambda>h b last. b), zstd_crc = (\<lambda>bs. []),
     open_err = (\<lambda>p. None), create_err = (\<lambda>p. None), stat_err = (\<lambda>p. None),
     read_err = (\<lambda>p. None), capacity = (\<lambda>p. None), remove_fails = (\<lambda>p. False),
     bufsize = 2, clock = (\<lambda>n. 63000000000000000000 + 200000000 * int n)\<rparr>"

definition world0 :: world where
  "world0 = \<lparr>files = Map.empty, console = [], ticks = 0\<rparr>"

definition world_with :: "string \<Rightarrow> byte list \<Rightarrow> world" where
  "world_with p bs = \<lparr>files = [p \<mapsto> bs], console = [], ticks = 0\<rparr>"

text \<open>The index: the newest release is no LTS release, the two older ones are.\<close>

definition env_index :: env where
  "env_index = env0\<lparr>
     http_Get := (\<lambda>u. if u = index_url
                      then Inr \<lparr>StatusCode = 200, ContentLength = - 1,
                                Body = \<lparr>chunks = [], fin = None\<rparr>\<rparr>
                      else Inl TransportError),
     json_Decode := (\<lambda>r. Inr [\<lparr>Version = ''v23.1.0'', LTS = Bool_iface False\<rparr>,
                              \<lparr>Version = ''v22.11.0'', LTS = String_iface ''Jod''\<rparr>,
                              \<lparr>Version = ''v20.18.0'', LTS = String_iface ''Iron''\<rparr>])\<rparr>"

text \<open>A Windows archive with two entries that end with node.exe, behind a README.\<close>

definition win_archive :: "zip_file list" where
  "win_archive =
     [\<lparr>Name = ''node-v1-win-x64/README.md'', Open = Inr \<lparr>chunks = [[35]], fin = None\<rparr>\<rparr>,
      \<lparr>Name = ''node-v1-win-x64/node.exe'', Open = Inr \<lparr>chunks = [[77, 90], [], [1]], fin = None\<rparr>\<rparr>,
      \<lparr>Name = ''node-v1-win-x64/test/node.exe'', Open = Inr \<lparr>chunks = [[0]], fin = None\<rparr>\<rparr>]"

definition env_win :: env where
  "env_win = env0\<lparr>
     http_Get := (\<lambda>u. if u = buildURL ''v1'' ''win-x64''
                      then Inr \<lparr>StatusCode = 200, ContentLength = 4,
                                Body = \<lparr>chunks = [[80, 75], [3, 4]], fin = None\<rparr>\<rparr>
                      else Inl TransportError),
     zip_decode := (\<lambda>r. if concat (chunks r) = [80, 75, 3, 4] \<and> fin r = None
                        then Inr win_archive else Inl FormatError)\<rparr>"

text \<open>The same download, decoded to an archive that holds the README only.\<close>

definition env_win_bare :: env where
  "env_win_bare = env_win\<lparr>zip_decode := (\<lambda>r. Inr (take 1 win_archive))\<rparr>"

definition linux_archive :: tar_archive where
  "linux_archive =
     \<lparr>entries =
        [\<lparr>Header_Name = ''node-v1-linux-x64/LICENSE'', content = \<lparr>chunks = [[76]], fin = None\<rparr>\<rparr>,
         \<lparr>Header_Name = ''node-v1-linux-x64/bin/node'',
           content = \<lparr>chunks = [[127, 69], [76, 70]], fin = None\<rparr>\<rparr>],
      ending = None\<rparr>"

definition env_linux :: env where
  "env_linux = env0\<lparr>
     http_Get := (\<lambda>u. if u = buildURL ''v1'' ''linux-x64''
                      then Inr \<lparr>StatusCode = 200, ContentLength = 2,
                                Body = \<lparr>chunks = [[253, 55]], fin = None\<rparr>\<rparr>
                      else Inl TransportError),
     xz_NewReader := (\<lambda>r. if concat (chunks r) = [253, 55] \<and> fin r = None
                          then Inr linux_archive else Inl FormatError)\<rparr>"

text \<open>Faults: reading the extracted executable fails after its first chunk; the output
  file cannot be created; Stat fails; Stat fails and the output file cannot be created.\<close>

definition env_read_fault :: env where
  "env_read_fault = env_win\<lparr>
     read_err := (\<lambda>p. if p = ''node.zst.nodebin'' then Some (1, IOError) else None)\<rparr>"

definition env_no_output :: env where
  "env_no_output = env_win\<lparr>
     create_err := (\<lambda>p. if p = ''node.zst'' then Some IOError else None)\<rparr>"

definition env_stat_fault :: env where
  "env_stat_fault = env0\<lparr>stat_err := (\<lambda>p. Some IOError)\<rparr>"

definition env_stat_create_fault :: env where
  "env_stat_create_fault = env0\<lparr>
     stat_err := (\<lambda>p. Some IOError),
     create_err := (\<lambda>p. if p = ''node.zst'' then Some IOError else None)\<rparr>"

text \<open>A server that answers every request with 404 and the body "Not Found".\<close>

definition env_404 :: env where
  "env_404 = env0\<lparr>
     http_Get := (\<lambda>u. Inr \<lparr>StatusCode = 404, ContentLength = 9,
                            Body = \<lparr>chunks = [[78, 111, 116], [32, 70, 111, 117, 110, 100]],
                                    fin = None\<rparr>\<rparr>)\<rparr>"

section \<open>Supporting lemmas\<close>

declare chunked.simps [simp del]

declare read_loop.simps [simp del]

subsection \<open>Prefixes and suffixes\<close>

lemma HasPrefix_iff: "HasPrefix s p = (\<exists>rest. s = p @ rest)"
  unfolding HasPrefix_def
proof
  assume a: "length p \<le> length s \<and> take (length p) s = p"
  have "s = take (length p) s @ drop (length p) s" by simp
  with a have "s = p @ drop (length p) s" by simp
  then show "\<exists>rest. s = p @ rest" by blast
next
  assume "\<exists>rest. s = p @ rest"
  then show "length p \<le> length s \<and> take (length p) s = p" by auto
qed

lemma HasSuffix_iff: "HasSuffix s suf = (\<exists>pre. s = pre @ suf)"
  unfolding HasSuffix_def
proof
  assume a: "length suf \<le> length s \<and> drop (length s - length suf) s = suf"
  have "s = take (length s - length suf) s @ drop (length s - length suf) s" by simp
  with a have "s = take (length s - length suf) s @ suf" by simp
  then show "\<exists>pre. s = pre @ suf" by blast
next
  assume "\<exists>pre. s = pre @ suf"
  then show "length suf \<le> length s \<and> drop (length s - length suf) s = suf" by auto
qed

subsection \<open>Files\<close>

lemma printf_files: "files (printf s w) = files w"
  by (simp add: printf_def)

lemma printf_console: "console (printf s w) = console w @ [Text s]"
  by (simp add: printf_def)

lemma file_Write_console: "console (snd (snd (file_Write env p c w))) = console w"
  by (simp add: file_Write_def split: option.splits)

lemma file_Write_other: "q \<noteq> p \<Longrightarrow> files (snd (snd (file_Write env p c w))) q = files w q"
  by (simp add: file_Write_def split: option.splits)

lemma file_Write_exists:
  "files w q \<noteq> None \<Longrightarrow> files (snd (snd (file_Write env p c w))) q \<noteq> None"
  by (auto simp add: file_Write_def split: option.splits)

lemma file_Write_path: "fst (snd (file_Write env p c w)) = p"
  by (simp add: file_Write_def split: option.splits)

lemma file_Write_unlimited:
  "capacity env p = None \<Longrightarrow> files w p = Some cur \<Longrightarrow>
   file_Write env p c w = (None, p, w\<lparr>files := (files w)(p \<mapsto> cur @ c)\<rparr>)"
  by (simp add: file_Write_def)

lemma os_Create_ok:
  "create_err env p = None \<Longrightarrow> os_Create env p w = Inr (w\<lparr>files := (files w)(p \<mapsto> [])\<rparr>)"
  by (simp add: os_Create_def)

lemma os_Remove_other: "q \<noteq> p \<Longrightarrow> files (os_Remove env p w) q = files w q"
  by (simp add: os_Remove_def)

lemma of_lib_None: "of_lib None = OK"
  by (simp add: of_lib_def)

lemma of_lib_not_NotFound: "of_lib e \<noteq> Err (NotFoundError m)"
  by (simp add: of_lib_def split: option.splits)

subsection \<open>Copying\<close>

lemma copy_chunks_unlimited:
  "capacity env p = None \<Longrightarrow> files w p = Some cur \<Longrightarrow>
   fst (copy_chunks (file_Write env) p cs e w) = e \<and>
   files (snd (snd (copy_chunks (file_Write env) p cs e w))) p = Some (cur @ concat cs)"
proof (induction cs arbitrary: w cur)
  case Nil
  then show ?case by simp
next
  case (Cons c cs)
  show ?case
  proof (cases "c = []")
    case True
    with Cons show ?thesis by simp
  next
    case False
    let ?w1 = "w\<lparr>files := (files w)(p \<mapsto> cur @ c)\<rparr>"
    from Cons.prems have fw: "file_Write env p c w = (None, p, ?w1)"
      by (simp add: file_Write_unlimited)
    have "files ?w1 p = Some (cur @ c)" by simp
    from Cons.IH [OF Cons.prems(1) this] False fw show ?thesis
      by simp
  qed
qed

lemma copy_chunks_other:
  "q \<noteq> p \<Longrightarrow> files (snd (snd (copy_chunks (file_Write env) p cs e w))) q = files w q"
proof (induction cs arbitrary: w)
  case Nil
  then show ?case by simp
next
  case (Cons c cs)
  obtain ew d1 w1 where fw: "file_Write env p c w = (ew, d1, w1)"
    by (cases "file_Write env p c w") auto
  with file_Write_path [of env p c w] have d1: "d1 = p" by simp
  from fw file_Write_other [OF Cons.prems, of env c w] have w1: "files w1 q = files w q" by simp
  show ?case
  proof (cases "c = []")
    case True
    with Cons show ?thesis by simp
  next
    case False
    show ?thesis
    proof (cases ew)
      case None
      with False fw d1 w1 Cons.IH [OF Cons.prems, of w1] show ?thesis by simp
    next
      case (Some x)
      with False fw d1 w1 show ?thesis by simp
    qed
  qed
qed

lemma Write_files: "files (snd (snd (Write env pw c w))) = files w"
  by (simp add: Write_def Let_def)

lemma Write_no_error: "snd (fst (Write env pw c w)) = None"
  by (simp add: Write_def Let_def)

lemma Write_count: "fst (fst (Write env pw c w)) = int (length c)"
  by (simp add: Write_def Let_def)

lemma Write_console:
  "\<exists>ps. console (snd (snd (Write env pw c w))) = console w @ ps \<and> list_all is_Percent ps"
  by (simp add: Write_def Let_def is_Percent_def)

lemma tee_chunks_unlimited:
  "capacity env p = None \<Longrightarrow> files w p = Some cur \<Longrightarrow>
   fst (tee_chunks env (file_Write env) p cs e pw w) = e \<and>
   files (snd (snd (snd (tee_chunks env (file_Write env) p cs e pw w)))) p = Some (cur @ concat cs)"
proof (induction cs arbitrary: w cur pw)
  case Nil
  then show ?case by simp
next
  case (Cons c cs)
  show ?case
  proof (cases "c = []")
    case True
    with Cons show ?thesis by simp
  next
    case False
    obtain n ep pw1 w1 where wr: "Write env pw c w = ((n, ep), pw1, w1)"
      by (cases "Write env pw c w") auto
    with Write_no_error [of env pw c w] have ep: "ep = None" by simp
    from wr Write_files [of env pw c w] have f1: "files w1 = files w" by simp
    let ?w2 = "w1\<lparr>files := (files w1)(p \<mapsto> cur @ c)\<rparr>"
    from f1 Cons.prems have fw: "file_Write env p c w1 = (None, p, ?w2)"
      by (simp add: file_Write_unlimited)
    have "files ?w2 p = Some (cur @ c)" by simp
    from Cons.IH [OF Cons.prems(1) this, of pw1] False wr ep fw show ?thesis
      by simp
  qed
qed

lemma tee_chunks_other:
  "q \<noteq> p \<Longrightarrow> files (snd (snd (snd (tee_chunks env (file_Write env) p cs e pw w)))) q = files w q"
proof (induction cs arbitrary: w pw)
  case Nil
  then show ?case by simp
next
  case (Cons c cs)
  obtain n ep pw1 w1 where wr: "Write env pw c w = ((n, ep), pw1, w1)"
    by (cases "Write env pw c w") auto
  with Write_no_error [of env pw c w] have ep: "ep = None" by simp
  from wr Write_files [of env pw c w] have f1: "files w1 = files w" by simp
  obtain ew d1 w2 where fw: "file_Write env p c w1 = (ew, d1, w2)"
    by (cases "file_Write env p c w1") auto
  with file_Write_path [of env p c w1] have d1: "d1 = p" by simp
  from fw file_Write_other [OF Cons.prems, of env c w1] f1 have w2: "files w2 q = files w q" by simp
  show ?case
  proof (cases "c = []")
    case True
    with Cons show ?thesis by simp
  next
    case False
    show ?thesis
    proof (cases ew)
      case None
      with False wr ep fw d1 w2 Cons.IH [OF Cons.prems, of pw1 w2] show ?thesis by simp
    next
      case (Some x)
      with False wr ep fw d1 w2 show ?thesis by simp
    qed
  qed
qed

lemma tee_chunks_console:
  assumes wr: "\<And>d c w. console (snd (snd (wr d c w))) = console w"
  shows "\<exists>ps. console (snd (snd (snd (tee_chunks env wr d cs e pw w)))) = console w @ ps
              \<and> list_all is_Percent ps"
proof (induction cs arbitrary: w pw d)
  case Nil
  then show ?case by simp
next
  case (Cons c cs)
  obtain n ep pw1 w1 where pwr: "Write env pw c w = ((n, ep), pw1, w1)"
    by (cases "Write env pw c w") auto
  with Write_no_error [of env pw c w] have ep: "ep = None" by simp
  from pwr Write_console [of env pw c w] obtain ps1
    where c1: "console w1 = console w @ ps1" and p1: "list_all is_Percent ps1" by auto
  obtain ew d1 w2 where fw: "wr d c w1 = (ew, d1, w2)"
    by (cases "wr d c w1") auto
  with wr [of d c w1] c1 have c2: "console w2 = console w @ ps1" by simp
  show ?case
  proof (cases "c = []")
    case True
    with Cons show ?thesis by simp
  next
    case False
    show ?thesis
    proof (cases ew)
      case None
      from Cons.IH [of d1 pw1 w2] obtain ps2
        where "console (snd (snd (snd (tee_chunks env wr d1 cs e pw1 w2)))) = console w2 @ ps2"
          and "list_all is_Percent ps2" by auto
      with c2 p1 have "console (snd (snd (snd (tee_chunks env wr d1 cs e pw1 w2)))) = console w @ (ps1 @ ps2)
          \<and> list_all is_Percent (ps1 @ ps2)" by simp
      with None False pwr ep fw show ?thesis by (simp del: append_assoc)
    next
      case (Some x)
      with False pwr ep fw c2 p1 show ?thesis by simp
    qed
  qed
qed

lemma file_Write_same_files:
  "files w = files w' \<Longrightarrow>
   fst (file_Write env p c w) = fst (file_Write env p c w') \<and>
   files (snd (snd (file_Write env p c w))) = files (snd (snd (file_Write env p c w')))"
  by (simp add: file_Write_def split: option.splits)

lemma tee_chunks_file_error:
  "files w = files w' \<Longrightarrow>
   fst (tee_chunks env (file_Write env) p cs e pw w) = fst (copy_chunks (file_Write env) p cs e w')"
proof (induction cs arbitrary: w w' pw)
  case Nil
  then show ?case by simp
next
  case (Cons c cs)
  obtain n ep pw1 w1 where pwr: "Write env pw c w = ((n, ep), pw1, w1)"
    by (cases "Write env pw c w") auto
  with Write_no_error [of env pw c w] have ep: "ep = None" by simp
  from pwr Write_files [of env pw c w] Cons.prems have f1: "files w1 = files w'" by simp
  obtain ew d1 w2 where a: "file_Write env p c w1 = (ew, d1, w2)"
    by (cases "file_Write env p c w1") auto
  obtain ew' d1' w2' where b: "file_Write env p c w' = (ew', d1', w2')"
    by (cases "file_Write env p c w'") auto
  from a b file_Write_same_files [OF f1, of env p c] have same: "ew' = ew" "files w2 = files w2'"
    by simp_all
  from a file_Write_path [of env p c w1] have d1: "d1 = p" by simp
  from b file_Write_path [of env p c w'] have d1': "d1' = p" by simp
  show ?case
  proof (cases "c = []")
    case True
    with Cons show ?thesis by simp
  next
    case False
    show ?thesis
    proof (cases ew)
      case None
      with False pwr ep a b same d1 d1' Cons.IH [OF same(2), of pw1] show ?thesis by simp
    next
      case (Some x)
      with False pwr ep a b same show ?thesis by simp
    qed
  qed
qed

subsection \<open>The encoder\<close>

lemma sink_Write_console: "console (snd (sink_Write env enc bs w)) = console w"
  by (simp add: sink_Write_def case_prod_unfold file_Write_console)

lemma sink_Write_exists:
  "files w q \<noteq> None \<Longrightarrow> files (snd (sink_Write env enc bs w)) q \<noteq> None"
  by (simp add: sink_Write_def case_prod_unfold file_Write_exists)

lemma sink_Write_same_files:
  "files w = files w' \<Longrightarrow>
   fst (sink_Write env enc bs w) = fst (sink_Write env enc bs w') \<and>
   files (snd (sink_Write env enc bs w)) = files (snd (sink_Write env enc bs w'))"
  using file_Write_same_files [of w w' env "sink enc" bs]
  by (simp add: sink_Write_def case_prod_unfold)

lemma write_block_console: "console (snd (snd (write_block env final enc w))) = console w"
  by (simp add: write_block_def Let_def case_prod_unfold sink_Write_console split: option.splits)

lemma write_block_exists:
  "files w q \<noteq> None \<Longrightarrow> files (snd (snd (write_block env final enc w))) q \<noteq> None"
  by (simp add: write_block_def Let_def case_prod_unfold sink_Write_exists del: not_None_eq
      split: option.splits)

lemma write_block_same_files:
  assumes "files w = files w'"
  shows "fst (write_block env final enc w) = fst (write_block env final enc w') \<and>
   fst (snd (write_block env final enc w)) = fst (snd (write_block env final enc w')) \<and>
   files (snd (snd (write_block env final enc w))) = files (snd (snd (write_block env final enc w')))"
proof -
  have a: "\<And>bs. fst (sink_Write env enc bs w) = fst (sink_Write env enc bs w') \<and>
   files (snd (sink_Write env enc bs w)) = files (snd (sink_Write env enc bs w'))"
    using assms by (rule sink_Write_same_files)
  show ?thesis
    using assms
    by (simp add: write_block_def Let_def case_prod_unfold a split: option.splits)
qed

lemma nextBlock_console: "console (snd (snd (nextBlock env final enc w))) = console w"
  by (simp add: nextBlock_def case_prod_unfold sink_Write_console write_block_console
      split: option.splits)

lemma nextBlock_exists:
  "files w q \<noteq> None \<Longrightarrow> files (snd (snd (nextBlock env final enc w))) q \<noteq> None"
  by (simp add: nextBlock_def case_prod_unfold sink_Write_exists write_block_exists
      del: not_None_eq split: option.splits)

lemma nextBlock_same_files:
  assumes "files w = files w'"
  shows "fst (nextBlock env final enc w) = fst (nextBlock env final enc w') \<and>
   fst (snd (nextBlock env final enc w)) = fst (snd (nextBlock env final enc w')) \<and>
   files (snd (snd (nextBlock env final enc w))) = files (snd (snd (nextBlock env final enc w')))"
proof -
  have a: "\<And>bs. fst (sink_Write env enc bs w) = fst (sink_Write env enc bs w') \<and>
   files (snd (sink_Write env enc bs w)) = files (snd (sink_Write env enc bs w'))"
    using assms by (rule sink_Write_same_files)
  have b: "\<And>f e. fst (write_block env f e w) = fst (write_block env f e w') \<and>
   fst (snd (write_block env f e w)) = fst (snd (write_block env f e w')) \<and>
   files (snd (snd (write_block env f e w))) = files (snd (snd (write_block env f e w')))"
    using assms by (rule write_block_same_files)
  have c: "\<And>f e. fst (write_block env f e (snd (sink_Write env enc (zstd_header env) w)))
        = fst (write_block env f e (snd (sink_Write env enc (zstd_header env) w'))) \<and>
   fst (snd (write_block env f e (snd (sink_Write env enc (zstd_header env) w))))
        = fst (snd (write_block env f e (snd (sink_Write env enc (zstd_header env) w')))) \<and>
   files (snd (snd (write_block env f e (snd (sink_Write env enc (zstd_header env) w)))))
        = files (snd (snd (write_block env f e (snd (sink_Write env enc (zstd_header env) w')))))"
    using a [of "zstd_header env"] by (intro write_block_same_files) simp
  show ?thesis
    using assms
    by (simp add: nextBlock_def case_prod_unfold a b c split: option.splits)
qed

lemma enc_Close_console: "console (snd (enc_Close env enc w)) = console w"
  by (simp add: enc_Close_def case_prod_unfold sink_Write_console nextBlock_console
      split: option.splits)

lemma enc_Close_exists:
  "files w q \<noteq> None \<Longrightarrow> files (snd (enc_Close env enc w)) q \<noteq> None"
  by (simp add: enc_Close_def case_prod_unfold sink_Write_exists nextBlock_exists
      del: not_None_eq split: option.splits)

lemma tee_Write_files: "files (snd (snd (tee_Write env tee got w))) = files w"
  by (simp add: tee_Write_def case_prod_unfold Write_files split: option.splits)

lemma tee_Write_result: "fst (tee_Write env tee got w) = (int (length got), None)"
  using Write_count [of env _ got w] Write_no_error [of env _ got w]
  by (simp add: tee_Write_def case_prod_unfold prod_eq_iff split: option.splits)

lemma tee_Write_console:
  "\<exists>ps. console (snd (snd (tee_Write env tee got w))) = console w @ ps \<and> list_all is_Percent ps"
  using Write_console [of env _ got w]
  by (simp add: tee_Write_def case_prod_unfold split: option.splits)

lemma unread_smaller:
  "c \<noteq> [] \<Longrightarrow>
   length (concat (unread (space env enc) c cs)) + length (unread (space env enc) c cs)
   < length (concat (c # cs)) + length (c # cs)"
  by (cases c) (auto simp: unread_def space_def)

lemma read_loop_Cons:
  assumes "c \<noteq> []"
  shows "read_loop env enc (c # cs) e tee w =
     (if length (filling enc) + length (take (space env enc) c) < zstd_blockSize env
      then read_loop env (enc\<lparr>filling := filling enc @ take (space env enc) c\<rparr>)
             (unread (space env enc) c cs) e
             (fst (snd (tee_Write env tee (take (space env enc) c) w)))
             (snd (snd (tee_Write env tee (take (space env enc) c) w)))
      else (case fst (nextBlock env False (enc\<lparr>filling := filling enc @ take (space env enc) c\<rparr>)
                       (snd (snd (tee_Write env tee (take (space env enc) c) w)))) of
              Some x \<Rightarrow>
                (Some x,
                 fst (snd (nextBlock env False (enc\<lparr>filling := filling enc @ take (space env enc) c\<rparr>)
                       (snd (snd (tee_Write env tee (take (space env enc) c) w))))),
                 fst (snd (tee_Write env tee (take (space env enc) c) w)),
                 snd (snd (nextBlock env False (enc\<lparr>filling := filling enc @ take (space env enc) c\<rparr>)
                       (snd (snd (tee_Write env tee (take (space env enc) c) w))))))
            | None \<Rightarrow>
                read_loop env
                  (fst (snd (nextBlock env False (enc\<lparr>filling := filling enc @ take (space env enc) c\<rparr>)
                       (snd (snd (tee_Write env tee (take (space env enc) c) w))))))
                  (unread (space env enc) c cs) e
                  (fst (snd (tee_Write env tee (take (space env enc) c) w)))
                  (snd (snd (nextBlock env False (enc\<lparr>filling := filling enc @ take (space env enc) c\<rparr>)
                       (snd (snd (tee_Write env tee (take (space env enc) c) w))))))))"
proof -
  obtain r tee1 w1 where t: "tee_Write env tee (take (space env enc) c) w = (r, tee1, w1)"
    by (cases "tee_Write env tee (take (space env enc) c) w") auto
  with tee_Write_result [of env tee "take (space env enc) c" w]
  have r: "r = (int (length (take (space env enc) c)), None)"
    by simp
  from assms t r show ?thesis
    by (simp add: read_loop.simps Let_def case_prod_unfold split: option.splits)
qed

lemma read_loop_fits:
  "c \<noteq> [] \<Longrightarrow> length (filling (pass_enc env enc c)) < zstd_blockSize env \<Longrightarrow>
   read_loop env enc (c # cs) e tee w =
   read_loop env (pass_enc env enc c) (unread (space env enc) c cs) e
     (pass_tee env enc c tee w) (pass_world env enc c tee w)"
  by (simp add: read_loop_Cons pass_enc_def pass_tee_def pass_world_def)

lemma read_loop_full_err:
  "c \<noteq> [] \<Longrightarrow> \<not> length (filling (pass_enc env enc c)) < zstd_blockSize env \<Longrightarrow>
   fst (nextBlock env False (pass_enc env enc c) (pass_world env enc c tee w)) = Some x \<Longrightarrow>
   read_loop env enc (c # cs) e tee w =
   (Some x, fst (snd (nextBlock env False (pass_enc env enc c) (pass_world env enc c tee w))),
    pass_tee env enc c tee w,
    snd (snd (nextBlock env False (pass_enc env enc c) (pass_world env enc c tee w))))"
  by (simp add: read_loop_Cons pass_enc_def pass_tee_def pass_world_def)

lemma read_loop_full_ok:
  "c \<noteq> [] \<Longrightarrow> \<not> length (filling (pass_enc env enc c)) < zstd_blockSize env \<Longrightarrow>
   fst (nextBlock env False (pass_enc env enc c) (pass_world env enc c tee w)) = None \<Longrightarrow>
   read_loop env enc (c # cs) e tee w =
   read_loop env (fst (snd (nextBlock env False (pass_enc env enc c) (pass_world env enc c tee w))))
     (unread (space env enc) c cs) e (pass_tee env enc c tee w)
     (snd (snd (nextBlock env False (pass_enc env enc c) (pass_world env enc c tee w))))"
  by (simp add: read_loop_Cons pass_enc_def pass_tee_def pass_world_def)

lemma pass_world_files: "files (pass_world env enc c tee w) = files w"
  by (simp add: pass_world_def tee_Write_files)

lemma pass_world_console:
  "\<exists>ps. console (pass_world env enc c tee w) = console w @ ps \<and> list_all is_Percent ps"
  by (simp add: pass_world_def tee_Write_console)

lemma pass_tee_None: "pass_tee env enc c None w = None"
  by (simp add: pass_tee_def tee_Write_def)

lemma read_loop_console:
  "\<exists>ps. console (snd (snd (snd (read_loop env enc cs e tee w)))) = console w @ ps
        \<and> list_all is_Percent ps"
proof (induction "length (concat cs) + length cs" arbitrary: enc cs tee w rule: less_induct)
  case less
  show ?case
  proof (cases cs)
    case Nil
    then show ?thesis by (simp add: read_loop.simps split: option.splits)
  next
    case (Cons c cs')
    show ?thesis
    proof (cases "c = []")
      case True
      with Cons less [of cs' enc tee w] show ?thesis by (simp add: read_loop.simps)
    next
      case False
      let ?enc1 = "pass_enc env enc c"
      let ?tee1 = "pass_tee env enc c tee w"
      let ?w1 = "pass_world env enc c tee w"
      let ?cs1 = "unread (space env enc) c cs'"
      let ?nb = "nextBlock env False ?enc1 ?w1"
      from pass_world_console [of env enc c tee w] obtain ps1
        where c1: "console ?w1 = console w @ ps1" and p1: "list_all is_Percent ps1" by auto
      have m: "length (concat ?cs1) + length ?cs1 < length (concat cs) + length cs"
        unfolding Cons by (rule unread_smaller [OF False])
      have step: "\<And>enc2 (w2 :: world). console w2 = console w @ ps1 \<Longrightarrow>
          \<exists>ps. console (snd (snd (snd (read_loop env enc2 ?cs1 e ?tee1 w2)))) = console w @ ps
              \<and> list_all is_Percent ps"
      proof -
        fix enc2 and w2 :: world
        assume a: "console w2 = console w @ ps1"
        from less [OF m, of enc2 ?tee1 w2] obtain ps2
          where "console (snd (snd (snd (read_loop env enc2 ?cs1 e ?tee1 w2)))) = console w2 @ ps2"
            and "list_all is_Percent ps2" by auto
        with a p1 have "console (snd (snd (snd (read_loop env enc2 ?cs1 e ?tee1 w2))))
            = console w @ (ps1 @ ps2) \<and> list_all is_Percent (ps1 @ ps2)" by simp
        then show "\<exists>ps. console (snd (snd (snd (read_loop env enc2 ?cs1 e ?tee1 w2)))) = console w @ ps
              \<and> list_all is_Percent ps" by blast
      qed
      show ?thesis
      proof (cases "length (filling ?enc1) < zstd_blockSize env")
        case True
        from step [OF c1, of ?enc1] show ?thesis
          by (simp only: Cons read_loop_fits [OF False True])
      next
        case full: False
        have c2: "console (snd (snd ?nb)) = console w @ ps1"
          using c1 by (simp add: nextBlock_console)
        show ?thesis
        proof (cases "fst ?nb")
          case (Some x)
          from c2 p1 show ?thesis
            by (simp only: Cons read_loop_full_err [OF False full Some] snd_conv) blast
        next
          case None
          from step [OF c2, of "fst (snd ?nb)"] show ?thesis
            by (simp only: Cons read_loop_full_ok [OF False full None])
        qed
      qed
    qed
  qed
qed

lemma read_loop_exists:
  "files w q \<noteq> None \<Longrightarrow> files (snd (snd (snd (read_loop env enc cs e tee w)))) q \<noteq> None"
proof (induction "length (concat cs) + length cs" arbitrary: enc cs tee w rule: less_induct)
  case less
  note ex = \<open>files w q \<noteq> None\<close>
  show ?case
  proof (cases cs)
    case Nil
    with ex show ?thesis by (simp add: read_loop.simps split: option.splits)
  next
    case (Cons c cs')
    show ?thesis
    proof (cases "c = []")
      case True
      with Cons less.hyps [of cs' w enc tee] ex show ?thesis by (simp add: read_loop.simps)
    next
      case False
      let ?enc1 = "pass_enc env enc c"
      let ?tee1 = "pass_tee env enc c tee w"
      let ?w1 = "pass_world env enc c tee w"
      let ?cs1 = "unread (space env enc) c cs'"
      let ?nb = "nextBlock env False ?enc1 ?w1"
      have e1: "files ?w1 q \<noteq> None"
        using ex by (simp add: pass_world_files)
      then have e2: "files (snd (snd ?nb)) q \<noteq> None"
        by (rule nextBlock_exists)
      have m: "length (concat ?cs1) + length ?cs1 < length (concat cs) + length cs"
        unfolding Cons by (rule unread_smaller [OF False])
      show ?thesis
      proof (cases "length (filling ?enc1) < zstd_blockSize env")
        case True
        from less.hyps [OF m e1, of ?enc1 ?tee1] show ?thesis
          by (simp only: Cons read_loop_fits [OF False True] simp_thms)
      next
        case full: False
        show ?thesis
        proof (cases "fst ?nb")
          case (Some x)
          from e2 show ?thesis
            by (simp only: Cons read_loop_full_err [OF False full Some] snd_conv simp_thms)
        next
          case None
          from less.hyps [OF m e2, of "fst (snd ?nb)" ?tee1] show ?thesis
            by (simp only: Cons read_loop_full_ok [OF False full None] simp_thms)
        qed
      qed
    qed
  qed
qed

lemma read_loop_tee_error:
  "files w = files w' \<Longrightarrow>
   fst (read_loop env enc cs e tee w) = fst (read_loop env enc cs e None w')"
proof (induction "length (concat cs) + length cs" arbitrary: enc cs tee w w' rule: less_induct)
  case less
  note fs = \<open>files w = files w'\<close>
  show ?case
  proof (cases cs)
    case Nil
    then show ?thesis by (simp add: read_loop.simps split: option.splits)
  next
    case (Cons c cs')
    show ?thesis
    proof (cases "c = []")
      case True
      with Cons less.hyps [of cs' w w' enc tee] fs show ?thesis by (simp add: read_loop.simps)
    next
      case False
      let ?enc1 = "pass_enc env enc c"
      let ?tee1 = "pass_tee env enc c tee w"
      let ?w1 = "pass_world env enc c tee w"
      let ?w1' = "pass_world env enc c None w'"
      let ?cs1 = "unread (space env enc) c cs'"
      let ?nb = "nextBlock env False ?enc1 ?w1"
      let ?nb' = "nextBlock env False ?enc1 ?w1'"
      have f1: "files ?w1 = files ?w1'"
        using fs by (simp only: pass_world_files)
      from nextBlock_same_files [OF f1, of env False ?enc1]
      have n1: "fst ?nb = fst ?nb'" and n2: "fst (snd ?nb) = fst (snd ?nb')"
        and n3: "files (snd (snd ?nb)) = files (snd (snd ?nb'))" by simp_all
      have m: "length (concat ?cs1) + length ?cs1 < length (concat cs) + length cs"
        unfolding Cons by (rule unread_smaller [OF False])
      show ?thesis
      proof (cases "length (filling ?enc1) < zstd_blockSize env")
        case True
        from less.hyps [OF m f1, of ?enc1 ?tee1] show ?thesis
          by (simp only: Cons read_loop_fits [OF False True] pass_tee_None)
      next
        case full: False
        show ?thesis
        proof (cases "fst ?nb")
          case (Some x)
          with n1 have s': "fst ?nb' = Some x" by simp
          show ?thesis
            by (simp only: Cons read_loop_full_err [OF False full Some]
                read_loop_full_err [OF False full s'] fst_conv)
        next
          case None
          with n1 have s': "fst ?nb' = None" by simp
          from less.hyps [OF m n3, of "fst (snd ?nb)" ?tee1] n2 show ?thesis
            by (simp only: Cons read_loop_full_ok [OF False full None]
                read_loop_full_ok [OF False full s'] pass_tee_None)
        qed
      qed
    qed
  qed
qed

lemma ReadFrom_console:
  "\<exists>ps. console (snd (snd (snd (ReadFrom env enc src tee w)))) = console w @ ps
        \<and> list_all is_Percent ps"
  using read_loop_console [of env enc "chunks src" "fin src" tee w]
    read_loop_console [of env "fst (snd (nextBlock env False enc w))" "chunks src" "fin src" tee
      "snd (snd (nextBlock env False enc w))"]
  by (simp add: ReadFrom_def case_prod_unfold nextBlock_console split: option.splits)

lemma ReadFrom_exists:
  "files w q \<noteq> None \<Longrightarrow> files (snd (snd (snd (ReadFrom env enc src tee w)))) q \<noteq> None"
  by (simp add: ReadFrom_def case_prod_unfold nextBlock_exists read_loop_exists
      del: not_None_eq split: option.splits)

lemma ReadFrom_tee_error:
  "fst (ReadFrom env enc src tee w) = fst (ReadFrom env enc src None w)"
  using read_loop_tee_error [of w w env enc "chunks src" "fin src" tee]
    read_loop_tee_error [of "snd (snd (nextBlock env False enc w))"
      "snd (snd (nextBlock env False enc w))" env "fst (snd (nextBlock env False enc w))"
      "chunks src" "fin src" tee]
  by (simp add: ReadFrom_def case_prod_unfold split: option.splits)

subsection \<open>The extraction loops\<close>

lemma range_File_skip:
  "\<forall>g\<in>set pre. \<not> HasSuffix (Name g) ''node.exe'' \<Longrightarrow>
   range_File env outFile platform (pre @ fs) w = range_File env outFile platform fs w"
  by (induction pre) simp_all

lemma range_File_match_not_NotFound:
  "HasSuffix (Name f) ''node.exe'' \<Longrightarrow>
   fst (range_File env outFile platform (f # fs) w) \<noteq> Err (NotFoundError m)"
  by (simp add: of_lib_not_NotFound split: sum.splits prod.splits)

lemma range_File_NotFound_iff:
  "(\<exists>m. fst (range_File env outFile platform fs w) = Err (NotFoundError m)) =
   (\<forall>f\<in>set fs. \<not> HasSuffix (Name f) ''node.exe'')"
proof (induction fs)
  case Nil
  then show ?case by simp
next
  case (Cons f fs)
  show ?case
  proof (cases "HasSuffix (Name f) ''node.exe''")
    case True
    with range_File_match_not_NotFound [OF True, of env outFile platform fs w] show ?thesis
      by auto
  next
    case False
    with Cons show ?thesis by simp
  qed
qed

lemma range_File_copies:
  assumes m: "HasSuffix (Name f) ''node.exe''" and op: "Open f = Inr rc" and eof: "fin rc = None"
    and cr: "create_err env outFile = None" and cap: "capacity env outFile = None"
  shows "fst (range_File env outFile platform (f # fs) w) = OK \<and>
         files (snd (range_File env outFile platform (f # fs) w)) outFile = Some (concat (chunks rc))"
proof -
  let ?w1 = "w\<lparr>files := (files w)(outFile \<mapsto> [])\<rparr>"
  have f: "files ?w1 outFile = Some []" by simp
  obtain err out w2 where t: "copy_chunks (file_Write env) outFile (chunks rc) (fin rc) ?w1 = (err, out, w2)"
    by (cases "copy_chunks (file_Write env) outFile (chunks rc) (fin rc) ?w1") auto
  with copy_chunks_unlimited [OF cap f, of "chunks rc" "fin rc"] eof
  have "err = None" and "files w2 outFile = Some (concat (chunks rc))" by simp_all
  with m op cr t show ?thesis
    by (simp add: os_Create_ok io_Copy_def of_lib_None printf_files)
qed

lemma range_File_other:
  "q \<noteq> outFile \<Longrightarrow> files (snd (range_File env outFile platform fs w)) q = files w q"
proof (induction fs)
  case Nil
  then show ?case by simp
next
  case (Cons f fs)
  show ?case
  proof (cases "HasSuffix (Name f) ''node.exe''")
    case False
    with Cons show ?thesis by simp
  next
    case True
    show ?thesis
    proof (cases "Open f")
      case (Inl e)
      with True show ?thesis by simp
    next
      case (Inr rc)
      show ?thesis
      proof (cases "create_err env outFile")
        case (Some e)
        with True Inr show ?thesis by (simp add: os_Create_def)
      next
        case None
        let ?w1 = "w\<lparr>files := (files w)(outFile \<mapsto> [])\<rparr>"
        obtain err out w2 where t: "copy_chunks (file_Write env) outFile (chunks rc) (fin rc) ?w1 = (err, out, w2)"
          by (cases "copy_chunks (file_Write env) outFile (chunks rc) (fin rc) ?w1") auto
        with copy_chunks_other [OF Cons.prems, of env "chunks rc" "fin rc" ?w1] Cons.prems
        have "files w2 q = files w q" by simp
        with True Inr None t show ?thesis
          by (simp add: os_Create_ok io_Copy_def printf_files)
      qed
    qed
  qed
qed

lemma tar_loop_skip:
  "\<forall>g\<in>set pre. \<not> HasSuffix (Header_Name g) ''/bin/node'' \<Longrightarrow>
   tar_loop env outFile platform (pre @ hs) e w = tar_loop env outFile platform hs e w"
  by (induction pre) simp_all

lemma tar_loop_match_not_NotFound:
  "HasSuffix (Header_Name h) ''/bin/node'' \<Longrightarrow>
   fst (tar_loop env outFile platform (h # hs) e w) \<noteq> Err (NotFoundError m)"
  by (simp add: of_lib_not_NotFound split: sum.splits prod.splits)

lemma tar_loop_NotFound_iff:
  "(\<exists>m. fst (tar_loop env outFile platform hs None w) = Err (NotFoundError m)) =
   (\<forall>h\<in>set hs. \<not> HasSuffix (Header_Name h) ''/bin/node'')"
proof (induction hs)
  case Nil
  then show ?case by simp
next
  case (Cons h hs)
  show ?case
  proof (cases "HasSuffix (Header_Name h) ''/bin/node''")
    case True
    with tar_loop_match_not_NotFound [OF True, of env outFile platform hs None w] show ?thesis
      by auto
  next
    case False
    with Cons show ?thesis by simp
  qed
qed

lemma tar_loop_copies:
  assumes m: "HasSuffix (Header_Name h) ''/bin/node''" and eof: "fin (content h) = None"
    and cr: "create_err env outFile = None" and cap: "capacity env outFile = None"
  shows "fst (tar_loop env outFile platform (h # hs) e w) = OK \<and>
         files (snd (tar_loop env outFile platform (h # hs) e w)) outFile = Some (concat (chunks (content h)))"
proof -
  let ?w1 = "w\<lparr>files := (files w)(outFile \<mapsto> [])\<rparr>"
  have f: "files ?w1 outFile = Some []" by simp
  obtain err out w2 where t: "copy_chunks (file_Write env) outFile (chunks (content h)) (fin (content h)) ?w1 = (err, out, w2)"
    by (cases "copy_chunks (file_Write env) outFile (chunks (content h)) (fin (content h)) ?w1") auto
  with copy_chunks_unlimited [OF cap f, of "chunks (content h)" "fin (content h)"] eof
  have "err = None" and "files w2 outFile = Some (concat (chunks (content h)))" by simp_all
  with m cr t show ?thesis
    by (simp add: os_Create_ok io_Copy_def of_lib_None printf_files)
qed

lemma tar_loop_other:
  "q \<noteq> outFile \<Longrightarrow> files (snd (tar_loop env outFile platform hs e w)) q = files w q"
proof (induction hs)
  case Nil
  then show ?case by (simp split: option.splits)
next
  case (Cons h hs)
  show ?case
  proof (cases "HasSuffix (Header_Name h) ''/bin/node''")
    case False
    with Cons show ?thesis by simp
  next
    case True
    show ?thesis
    proof (cases "create_err env outFile")
      case (Some x)
      with True show ?thesis by (simp add: os_Create_def)
    next
      case None
      let ?w1 = "w\<lparr>files := (files w)(outFile \<mapsto> [])\<rparr>"
      obtain err out w2 where t: "copy_chunks (file_Write env) outFile (chunks (content h)) (fin (content h)) ?w1 = (err, out, w2)"
        by (cases "copy_chunks (file_Write env) outFile (chunks (content h)) (fin (content h)) ?w1") auto
      with copy_chunks_other [OF Cons.prems, of env "chunks (content h)" "fin (content h)" ?w1] Cons.prems
      have "files w2 q = files w q" by simp
      with True None t show ?thesis
        by (simp add: os_Create_ok io_Copy_def printf_files)
    qed
  qed
qed

subsection \<open>The stages of the pipeline\<close>

lemma downloadFile_other:
  "q \<noteq> filename \<Longrightarrow> files (snd (downloadFile env filename url platform w)) q = files w q"
proof (cases "http_Get env url")
  case (Inl e)
  then show ?thesis by (simp add: downloadFile_def)
next
  case (Inr resp)
  assume q: "q \<noteq> filename"
  show ?thesis
  proof (cases "create_err env filename")
    case (Some e)
    with Inr show ?thesis by (simp add: downloadFile_def os_Create_def)
  next
    case None
    let ?w1 = "w\<lparr>files := (files w)(filename \<mapsto> [])\<rparr>"
    let ?pw = "\<lparr>Total = ContentLength resp, Written = 0, LastUpdate = 0,
                Prefix = zh_download @ ''['' @ platform @ '']''\<rparr>"
    obtain err out pw1 w2 where t: "tee_chunks env (file_Write env) filename (chunks (Body resp)) (fin (Body resp)) ?pw ?w1 = (err, out, pw1, w2)"
      by (cases "tee_chunks env (file_Write env) filename (chunks (Body resp)) (fin (Body resp)) ?pw ?w1") auto
    with tee_chunks_other [OF q, of env "chunks (Body resp)" "fin (Body resp)" ?pw ?w1] q
    have "files w2 q = files w q" by simp
    with Inr None t show ?thesis
      by (simp add: downloadFile_def os_Create_ok io_Copy_Tee_def printf_files)
  qed
qed

lemma extractNode_other:
  "q \<noteq> exeFile \<Longrightarrow> files (snd (extractNode env tmpFile exeFile platform w)) q = files w q"
  by (simp add: extractNode_def extractNodeFromZip_def extractNodeFromTarXZ_def
      range_File_other tar_loop_other split: sum.splits)

lemma downloadFile_last:
  assumes get: "http_Get env url = Inr resp" and cr: "create_err env filename = None"
  shows "\<exists>ps. console (snd (downloadFile env filename url platform w)) =
           console w @ ps @ [Text (CR # zh_download @ ''['' @ platform @ ''] 100%'' @ [LF])]
         \<and> list_all is_Percent ps"
proof -
  let ?w1 = "w\<lparr>files := (files w)(filename \<mapsto> [])\<rparr>"
  let ?pw = "\<lparr>Total = ContentLength resp, Written = 0, LastUpdate = 0,
              Prefix = zh_download @ ''['' @ platform @ '']''\<rparr>"
  obtain err out pw1 w2 where t: "tee_chunks env (file_Write env) filename (chunks (Body resp)) (fin (Body resp)) ?pw ?w1 = (err, out, pw1, w2)"
    by (cases "tee_chunks env (file_Write env) filename (chunks (Body resp)) (fin (Body resp)) ?pw ?w1") auto
  from tee_chunks_console [of "file_Write env" env filename "chunks (Body resp)" "fin (Body resp)" ?pw ?w1] t
  obtain ps where "console w2 = console w @ ps" and "list_all is_Percent ps"
    by (auto simp: file_Write_console)
  with get cr t show ?thesis
    by (simp add: downloadFile_def os_Create_def io_Copy_Tee_def printf_console)
qed

lemma compressZstd_last:
  assumes op: "os_Open env input w = Inr inp" and st: "Stat env input w = Inr sz"
    and cr: "create_err env output = None" and nw: "zstd_NewWriter_err env = None"
  shows "\<exists>ps. console (snd (compressZstd env input output platform w)) =
           console w @ ps @ [Text (CR # zh_compress @ ''['' @ platform @ ''] 100%'' @ [LF])]
         \<and> list_all is_Percent ps"
proof -
  let ?w1 = "w\<lparr>files := (files w)(output \<mapsto> [])\<rparr>"
  let ?pw = "\<lparr>Total = sz, Written = 0, LastUpdate = 0,
              Prefix = zh_compress @ ''['' @ platform @ '']''\<rparr>"
  let ?enc = "\<lparr>sink = output, filling = [], history = [], headerWritten = False,
               eofWritten = False, fullFrameWritten = False, s_err = None, s_writeErr = None\<rparr>"
  from ReadFrom_console [of env ?enc inp "Some ?pw" ?w1]
  obtain ps where "console (snd (snd (snd (ReadFrom env ?enc inp (Some ?pw) ?w1)))) = console w @ ps"
    and "list_all is_Percent ps"
    by auto
  with op st cr nw show ?thesis
    by (simp add: compressZstd_def zstd_NewWriter_def os_Create_def case_prod_unfold Let_def
        printf_console enc_Close_console)
qed

lemma compressZstd_OK_output:
  assumes "fst (compressZstd env input output platform w) = OK"
  shows "files (snd (compressZstd env input output platform w)) output \<noteq> None"
proof (cases "os_Open env input w")
  case (Inl e)
  with assms show ?thesis by (simp add: compressZstd_def)
next
  case (Inr inp)
  show ?thesis
  proof (cases "create_err env output")
    case (Some e)
    with Inr assms show ?thesis by (simp add: compressZstd_def os_Create_def)
  next
    case None
    note cr = None
    show ?thesis
    proof (cases "zstd_NewWriter_err env")
      case (Some e)
      with Inr cr assms show ?thesis
        by (simp add: compressZstd_def zstd_NewWriter_def os_Create_ok)
    next
      case None
      note nw = None
      show ?thesis
      proof (cases "Stat env input w")
        case (Inl e)
        with Inr cr nw assms show ?thesis
          by (simp add: compressZstd_def zstd_NewWriter_def os_Create_ok)
      next
        case (Inr sz)
        let ?w1 = "w\<lparr>files := (files w)(output \<mapsto> [])\<rparr>"
        let ?pw = "\<lparr>Total = sz, Written = 0, LastUpdate = 0,
                    Prefix = zh_compress @ ''['' @ platform @ '']''\<rparr>"
        let ?enc = "\<lparr>sink = output, filling = [], history = [], headerWritten = False,
                     eofWritten = False, fullFrameWritten = False, s_err = None, s_writeErr = None\<rparr>"
        let ?rf = "ReadFrom env ?enc inp (Some ?pw) ?w1"
        have "files ?w1 output \<noteq> None" by simp
        then have "files (snd (snd (snd ?rf))) output \<noteq> None"
          by (rule ReadFrom_exists)
        then have "files (printf (CR # zh_compress @ ''['' @ platform @ ''] 100%'' @ [LF])
                           (snd (snd (snd ?rf)))) output \<noteq> None"
          by (simp add: printf_files)
        then have "files (snd (enc_Close env (fst (snd ?rf))
                     (printf (CR # zh_compress @ ''['' @ platform @ ''] 100%'' @ [LF])
                        (snd (snd (snd ?rf)))))) output \<noteq> None"
          by (rule enc_Close_exists)
        with \<open>os_Open env input w = Inr inp\<close> cr nw Inr show ?thesis
          by (simp add: compressZstd_def zstd_NewWriter_def os_Create_ok case_prod_unfold
              Let_def)
      qed
    qed
  qed
qed

lemma extract_and_compress_fail:
  assumes "fst (extractNode env tmpFile (outFile @ ''.nodebin'') platform w) \<noteq> OK"
  shows "extract_and_compress env tmpFile outFile platform w
         = extractNode env tmpFile (outFile @ ''.nodebin'') platform w"
proof -
  obtain r w1 where e: "extractNode env tmpFile (outFile @ ''.nodebin'') platform w = (r, w1)"
    by (cases "extractNode env tmpFile (outFile @ ''.nodebin'') platform w") auto
  with assms have "r \<noteq> OK" by simp
  with e show ?thesis
    by (cases r) (simp_all add: extract_and_compress_def)
qed

lemma extract_and_compress_OK:
  assumes "fst (extract_and_compress env tmpFile outFile platform w) = OK"
  shows "fst (extractNode env tmpFile (outFile @ ''.nodebin'') platform w) = OK
       \<and> fst (compressZstd env (outFile @ ''.nodebin'') outFile platform
                (snd (extractNode env tmpFile (outFile @ ''.nodebin'') platform w))) = OK
       \<and> files (snd (extract_and_compress env tmpFile outFile platform w)) outFile \<noteq> None"
proof -
  obtain r w1 where e: "extractNode env tmpFile (outFile @ ''.nodebin'') platform w = (r, w1)"
    by (cases "extractNode env tmpFile (outFile @ ''.nodebin'') platform w") auto
  obtain r2 w2 where c: "compressZstd env (outFile @ ''.nodebin'') outFile platform w1 = (r2, w2)"
    by (cases "compressZstd env (outFile @ ''.nodebin'') outFile platform w1") auto
  from assms e have r: "r = OK"
    by (cases r) (simp_all add: extract_and_compress_def)
  with assms e c have r2: "r2 = OK"
    by (cases r2) (simp_all add: extract_and_compress_def)
  from compressZstd_OK_output [of env "outFile @ ''.nodebin''" outFile platform w1] c r2
  have "files w2 outFile \<noteq> None" by simp
  then have "files (os_Remove env (outFile @ ''.nodebin'') w2) outFile \<noteq> None"
    by (simp add: os_Remove_other)
  with e c r r2 show ?thesis
    by (simp add: extract_and_compress_def)
qed

subsection \<open>The version scan\<close>

lemma range_versions_skip:
  "\<forall>u\<in>set pre. LTS u = Bool_iface False \<or> LTS u = Nil_iface \<Longrightarrow>
   range_versions (pre @ vs) = range_versions vs"
  by (induction pre) auto

lemma range_versions_NotFound_iff:
  "(\<exists>m. range_versions vs = Inl (NotFoundError m)) =
   (\<forall>u\<in>set vs. LTS u = Bool_iface False \<or> LTS u = Nil_iface)"
  by (induction vs) auto

subsection \<open>The semaphore\<close>

lemma filter_update_count:
  "i < length xs \<Longrightarrow>
   length (filter P (xs[i := y])) + (if P (xs ! i) then 1 else 0) =
   length (filter P xs) + (if P y then 1 else 0)"
proof (induction xs arbitrary: i)
  case Nil
  then show ?case by simp
next
  case (Cons x xs)
  show ?case
  proof (cases i)
    case 0
    then show ?thesis by simp
  next
    case (Suc j)
    with Cons.prems have "j < length xs" by simp
    from Cons.IH [OF this] Suc show ?thesis by simp
  qed
qed

lemma slots_ok_start: "slots_ok (main_start n)"
  by (simp add: slots_ok_def main_start_def holders_def)

lemma slots_ok_step:
  assumes "slots_ok s" and "step i s = Some s'"
  shows "slots_ok s'"
proof -
  from assms(2) have i: "i < length (goroutines s)"
    by (auto simp: step_def split: if_splits)
  show ?thesis
  proof (cases "goroutines s ! i")
    case Waiting
    with assms(2) i have s': "s' = \<lparr>goroutines = (goroutines s)[i := Holding], sem = sem s + 1\<rparr>"
      and lt: "sem s < sem_cap"
      by (auto simp: step_def split: if_splits)
    from filter_update_count [OF i, of "\<lambda>g. g = Holding" Holding] Waiting
    have "length (filter (\<lambda>g. g = Holding) ((goroutines s)[i := Holding])) = holders s + 1"
      by (simp add: holders_def)
    with assms(1) lt s' show ?thesis
      by (simp add: slots_ok_def holders_def)
  next
    case Holding
    with assms(2) i have s': "s' = \<lparr>goroutines = (goroutines s)[i := Finished], sem = sem s - 1\<rparr>"
      and pos: "0 < sem s"
      by (auto simp: step_def split: if_splits)
    from filter_update_count [OF i, of "\<lambda>g. g = Holding" Finished] Holding
    have "length (filter (\<lambda>g. g = Holding) ((goroutines s)[i := Finished])) + 1 = holders s"
      by (simp add: holders_def)
    with assms(1) pos s' show ?thesis
      unfolding slots_ok_def holders_def by auto
  next
    case Finished
    with assms(2) i show ?thesis
      by (simp add: step_def)
  qed
qed

lemma slots_ok_run: "slots_ok s \<Longrightarrow> slots_ok (run sched s)"
proof (induction sched arbitrary: s)
  case Nil
  then show ?case by simp
next
  case (Cons i sched)
  show ?case
  proof (cases "step i s")
    case None
    with Cons show ?thesis by simp
  next
    case (Some s')
    with Cons.prems have "slots_ok s'" by (simp add: slots_ok_step)
    with Cons.IH Some show ?thesis by simp
  qed
qed

section \<open>The claims\<close>

text \<open>
  C1. Extraction takes the first entry, in archive order, whose name ends with the
  executable's name (\<open>node.exe\<close> in the zip variant, \<open>/bin/node\<close> in the tar variant)
  and copies its bytes to the destination; it fails with NotFoundError exactly when no
  entry matches. Stated for an archive that decodes (for the tar variant the
  NotFoundError part asks that the entries end with io.EOF), with the copy of the
  selected entry running on a destination, other than the archive itself, that can be
  created and written.
\<close>

theorem extraction_selects_first_match:
  "(zip_OpenReader env zipPath w = Inr fs \<longrightarrow>
      ((\<exists>m. fst (extractNodeFromZip env zipPath outFile platform w) = Err (NotFoundError m))
         = (\<forall>f\<in>set fs. \<not> HasSuffix (Name f) ''node.exe''))
      \<and> (\<forall>pre f post rc.
            fs = pre @ f # post \<and> (\<forall>g\<in>set pre. \<not> HasSuffix (Name g) ''node.exe'')
            \<and> HasSuffix (Name f) ''node.exe'' \<and> Open f = Inr rc \<and> fin rc = None
            \<and> create_err env outFile = None \<and> capacity env outFile = None
            \<and> outFile \<noteq> zipPath
          \<longrightarrow> fst (extractNodeFromZip env zipPath outFile platform w) = OK
              \<and> files (snd (extractNodeFromZip env zipPath outFile platform w))
                  = (files w)(outFile \<mapsto> concat (chunks rc))))
   \<and> (os_Open env tarxzPath w = Inr rd \<and> xz_NewReader env rd = Inr tr \<longrightarrow>
      (ending tr = None \<longrightarrow>
         ((\<exists>m. fst (extractNodeFromTarXZ env tarxzPath outFile platform w) = Err (NotFoundError m))
           = (\<forall>h\<in>set (entries tr). \<not> HasSuffix (Header_Name h) ''/bin/node'')))
      \<and> (\<forall>pre h post.
            entries tr = pre @ h # post \<and> (\<forall>g\<in>set pre. \<not> HasSuffix (Header_Name g) ''/bin/node'')
            \<and> HasSuffix (Header_Name h) ''/bin/node'' \<and> fin (content h) = None
            \<and> create_err env outFile = None \<and> capacity env outFile = None
            \<and> outFile \<noteq> tarxzPath
          \<longrightarrow> fst (extractNodeFromTarXZ env tarxzPath outFile platform w) = OK
              \<and> files (snd (extractNodeFromTarXZ env tarxzPath outFile platform w))
                  = (files w)(outFile \<mapsto> concat (chunks (content h)))))"
proof (intro conjI impI allI)
  assume z: "zip_OpenReader env zipPath w = Inr fs"
  then have ex: "extractNodeFromZip env zipPath outFile platform w = range_File env outFile platform fs w"
    by (simp add: extractNodeFromZip_def)
  show "(\<exists>m. fst (extractNodeFromZip env zipPath outFile platform w) = Err (NotFoundError m))
         = (\<forall>f\<in>set fs. \<not> HasSuffix (Name f) ''node.exe'')"
    by (simp only: ex range_File_NotFound_iff)
  fix pre f post rc
  assume a: "fs = pre @ f # post \<and> (\<forall>g\<in>set pre. \<not> HasSuffix (Name g) ''node.exe'')
            \<and> HasSuffix (Name f) ''node.exe'' \<and> Open f = Inr rc \<and> fin rc = None
            \<and> create_err env outFile = None \<and> capacity env outFile = None
            \<and> outFile \<noteq> zipPath"
  then have sk: "range_File env outFile platform fs w = range_File env outFile platform (f # post) w"
    by (simp add: range_File_skip)
  from a range_File_copies [of f rc env outFile platform post w]
  have c: "fst (range_File env outFile platform (f # post) w) = OK"
    and d: "files (snd (range_File env outFile platform (f # post) w)) outFile = Some (concat (chunks rc))"
    by simp_all
  from c show "fst (extractNodeFromZip env zipPath outFile platform w) = OK"
    by (simp only: ex sk)
  show "files (snd (extractNodeFromZip env zipPath outFile platform w))
          = (files w)(outFile \<mapsto> concat (chunks rc))"
  proof
    fix q
    show "files (snd (extractNodeFromZip env zipPath outFile platform w)) q
          = ((files w)(outFile \<mapsto> concat (chunks rc))) q"
      using d range_File_other [of q outFile env platform "f # post" w]
      by (cases "q = outFile") (simp_all only: ex sk fun_upd_same fun_upd_other simp_thms)
  qed
next
  assume t: "os_Open env tarxzPath w = Inr rd \<and> xz_NewReader env rd = Inr tr"
  then have ex: "extractNodeFromTarXZ env tarxzPath outFile platform w
               = tar_loop env outFile platform (entries tr) (ending tr) w"
    by (simp add: extractNodeFromTarXZ_def)
  {
    assume "ending tr = None"
    then show "(\<exists>m. fst (extractNodeFromTarXZ env tarxzPath outFile platform w) = Err (NotFoundError m))
           = (\<forall>h\<in>set (entries tr). \<not> HasSuffix (Header_Name h) ''/bin/node'')"
      using tar_loop_NotFound_iff [of env outFile platform "entries tr" w] by (simp only: ex)
  }
  fix pre h post
  assume a: "entries tr = pre @ h # post \<and> (\<forall>g\<in>set pre. \<not> HasSuffix (Header_Name g) ''/bin/node'')
            \<and> HasSuffix (Header_Name h) ''/bin/node'' \<and> fin (content h) = None
            \<and> create_err env outFile = None \<and> capacity env outFile = None
            \<and> outFile \<noteq> tarxzPath"
  then have sk: "tar_loop env outFile platform (entries tr) (ending tr) w
               = tar_loop env outFile platform (h # post) (ending tr) w"
    by (simp add: tar_loop_skip)
  from a tar_loop_copies [of h env outFile platform post "ending tr" w]
  have c: "fst (tar_loop env outFile platform (h # post) (ending tr) w) = OK"
    and d: "files (snd (tar_loop env outFile platform (h # post) (ending tr) w)) outFile
              = Some (concat (chunks (content h)))"
    by simp_all
  from c show "fst (extractNodeFromTarXZ env tarxzPath outFile platform w) = OK"
    by (simp only: ex sk)
  show "files (snd (extractNodeFromTarXZ env tarxzPath outFile platform w))
          = (files w)(outFile \<mapsto> concat (chunks (content h)))"
  proof
    fix q
    show "files (snd (extractNodeFromTarXZ env tarxzPath outFile platform w)) q
          = ((files w)(outFile \<mapsto> concat (chunks (content h)))) q"
      using d tar_loop_other [of q outFile env platform "h # post" "ending tr" w]
      by (cases "q = outFile") (simp_all only: ex sk fun_upd_same fun_upd_other simp_thms)
  qed
qed

theorem extraction_selects_first_match_witness:
  "fst (extractNodeFromZip env_win ''a.tmp'' ''a.nodebin'' ''win-x64''
          (world_with ''a.tmp'' [80, 75, 3, 4])) = OK
   \<and> files (snd (extractNodeFromZip env_win ''a.tmp'' ''a.nodebin'' ''win-x64''
          (world_with ''a.tmp'' [80, 75, 3, 4])))
       = [''a.tmp'' \<mapsto> [80, 75, 3, 4], ''a.nodebin'' \<mapsto> [77, 90, 1]]
   \<and> (\<exists>m. fst (extractNodeFromZip env_win_bare ''a.tmp'' ''a.nodebin'' ''win-x64''
          (world_with ''a.tmp'' [80, 75, 3, 4])) = Err (NotFoundError m))
   \<and> fst (extractNodeFromTarXZ env_linux ''b.tmp'' ''b.nodebin'' ''linux-x64''
          (world_with ''b.tmp'' [253, 55])) = OK
   \<and> files (snd (extractNodeFromTarXZ env_linux ''b.tmp'' ''b.nodebin'' ''linux-x64''
          (world_with ''b.tmp'' [253, 55])))
       = [''b.tmp'' \<mapsto> [253, 55], ''b.nodebin'' \<mapsto> [127, 69, 76, 70]]"
proof -
  let ?wa = "world_with ''a.tmp'' [80, 75, 3, 4]"
  let ?wb = "world_with ''b.tmp'' [253, 55]"
  let ?readme = "\<lparr>Name = ''node-v1-win-x64/README.md'', Open = Inr \<lparr>chunks = [[35]], fin = None\<rparr>\<rparr>"
  let ?exe = "\<lparr>Name = ''node-v1-win-x64/node.exe'', Open = Inr \<lparr>chunks = [[77, 90], [], [1]], fin = None\<rparr>\<rparr>"
  let ?exe2 = "\<lparr>Name = ''node-v1-win-x64/test/node.exe'', Open = Inr \<lparr>chunks = [[0]], fin = None\<rparr>\<rparr>"
  let ?lic = "\<lparr>Header_Name = ''node-v1-linux-x64/LICENSE'', content = \<lparr>chunks = [[76]], fin = None\<rparr>\<rparr>"
  let ?bin = "\<lparr>Header_Name = ''node-v1-linux-x64/bin/node'',
                content = \<lparr>chunks = [[127, 69], [76, 70]], fin = None\<rparr>\<rparr>"
  have z: "zip_OpenReader env_win ''a.tmp'' ?wa = Inr win_archive"
    by (simp add: env_win_def env0_def world_with_def zip_OpenReader_def os_Open_def file_reader_def chunked.simps os_Create_def
      file_Write_def printf_def of_lib_def io_Copy_def io_Copy_Tee_def Write_def Sub_def
      maxDuration_def minDuration_def Millisecond_def HasSuffix_def HasPrefix_def Let_def)
  have zs: "win_archive = [?readme] @ ?exe # [?exe2]
      \<and> (\<forall>g\<in>set [?readme]. \<not> HasSuffix (Name g) ''node.exe'')
      \<and> HasSuffix (Name ?exe) ''node.exe''
      \<and> Open ?exe = Inr \<lparr>chunks = [[77, 90], [], [1]], fin = None\<rparr>
      \<and> fin \<lparr>chunks = [[77, 90], [], [1 :: byte]], fin = None\<rparr> = None
      \<and> create_err env_win ''a.nodebin'' = None \<and> capacity env_win ''a.nodebin'' = None
      \<and> ''a.nodebin'' \<noteq> ''a.tmp''"
    by (simp add: env_win_def env0_def win_archive_def HasSuffix_def)
  have zb: "zip_OpenReader env_win_bare ''a.tmp'' ?wa = Inr [?readme]"
    by (simp add: env_win_bare_def env_win_def env0_def win_archive_def world_with_def
        zip_OpenReader_def os_Open_def file_reader_def chunked.simps os_Create_def
      file_Write_def printf_def of_lib_def io_Copy_def io_Copy_Tee_def Write_def Sub_def
      maxDuration_def minDuration_def Millisecond_def HasSuffix_def HasPrefix_def Let_def)
  have zbs: "\<forall>f\<in>set [?readme]. \<not> HasSuffix (Name f) ''node.exe''"
    by (simp add: HasSuffix_def)
  have t: "os_Open env_linux ''b.tmp'' ?wb = Inr \<lparr>chunks = [[253, 55]], fin = None\<rparr>
      \<and> xz_NewReader env_linux \<lparr>chunks = [[253, 55]], fin = None\<rparr> = Inr linux_archive"
    by (simp add: env_linux_def env0_def world_with_def os_Open_def file_reader_def chunked.simps os_Create_def
      file_Write_def printf_def of_lib_def io_Copy_def io_Copy_Tee_def Write_def Sub_def
      maxDuration_def minDuration_def Millisecond_def HasSuffix_def HasPrefix_def Let_def)
  have ts: "entries linux_archive = [?lic] @ ?bin # []
      \<and> (\<forall>g\<in>set [?lic]. \<not> HasSuffix (Header_Name g) ''/bin/node'')
      \<and> HasSuffix (Header_Name ?bin) ''/bin/node'' \<and> fin (content ?bin) = None
      \<and> create_err env_linux ''b.nodebin'' = None \<and> capacity env_linux ''b.nodebin'' = None
      \<and> ''b.nodebin'' \<noteq> ''b.tmp''"
    by (simp add: env_linux_def env0_def linux_archive_def HasSuffix_def)
  note a = extraction_selects_first_match [of env_win "''a.tmp''" ?wa win_archive
      "''a.nodebin''" "''win-x64''" "''b.tmp''" "\<lparr>chunks = [[253, 55]], fin = None\<rparr>" linux_archive]
  note b = extraction_selects_first_match [of env_win_bare "''a.tmp''" ?wa "[?readme]"
      "''a.nodebin''" "''win-x64''" "''b.tmp''" "\<lparr>chunks = [[253, 55]], fin = None\<rparr>" linux_archive]
  note c = extraction_selects_first_match [of env_linux "''a.tmp''" ?wb win_archive
      "''b.nodebin''" "''linux-x64''" "''b.tmp''" "\<lparr>chunks = [[253, 55]], fin = None\<rparr>" linux_archive]
  from a z zs have 1: "fst (extractNodeFromZip env_win ''a.tmp'' ''a.nodebin'' ''win-x64'' ?wa) = OK
      \<and> files (snd (extractNodeFromZip env_win ''a.tmp'' ''a.nodebin'' ''win-x64'' ?wa))
          = (files ?wa)(''a.nodebin'' \<mapsto> concat (chunks \<lparr>chunks = [[77, 90], [], [1 :: byte]], fin = None\<rparr>))"
    by blast
  from b zb zbs have 2: "\<exists>m. fst (extractNodeFromZip env_win_bare ''a.tmp'' ''a.nodebin'' ''win-x64'' ?wa)
      = Err (NotFoundError m)"
    by blast
  from c t ts have 3: "fst (extractNodeFromTarXZ env_linux ''b.tmp'' ''b.nodebin'' ''linux-x64'' ?wb) = OK
      \<and> files (snd (extractNodeFromTarXZ env_linux ''b.tmp'' ''b.nodebin'' ''linux-x64'' ?wb))
          = (files ?wb)(''b.nodebin'' \<mapsto> concat (chunks (content ?bin)))"
    by blast
  from 1 2 3 show ?thesis
    by (simp add: world_with_def)
qed

text \<open>
  C2. For every sequence of release descriptors that the index request and the JSON decoder
  deliver, fetchLatestLTS returns the version of the first descriptor, in input order, whose
  LTS field is neither the boolean false nor nil (JSON null or no key), and it fails with
  NotFoundError exactly when no descriptor is such.
\<close>

theorem fetchLatestLTS_first_lts:
  assumes "http_Get env index_url = Inr resp" and "json_Decode env (Body resp) = Inr vs"
  shows "(\<forall>pre v post.
            vs = pre @ v # post
            \<and> (\<forall>u\<in>set pre. LTS u = Bool_iface False \<or> LTS u = Nil_iface)
            \<and> LTS v \<noteq> Bool_iface False \<and> LTS v \<noteq> Nil_iface
          \<longrightarrow> fetchLatestLTS env = Inr (Version v))
       \<and> ((\<exists>m. fetchLatestLTS env = Inl (NotFoundError m))
            = (\<forall>u\<in>set vs. LTS u = Bool_iface False \<or> LTS u = Nil_iface))"
proof -
  from assms have f: "fetchLatestLTS env = range_versions vs"
    by (simp add: fetchLatestLTS_def)
  show ?thesis
  proof (intro conjI allI impI)
    fix pre v post
    assume a: "vs = pre @ v # post
            \<and> (\<forall>u\<in>set pre. LTS u = Bool_iface False \<or> LTS u = Nil_iface)
            \<and> LTS v \<noteq> Bool_iface False \<and> LTS v \<noteq> Nil_iface"
    then have "range_versions vs = range_versions (v # post)"
      by (simp add: range_versions_skip)
    with a f show "fetchLatestLTS env = Inr (Version v)" by simp
  next
    show "(\<exists>m. fetchLatestLTS env = Inl (NotFoundError m))
            = (\<forall>u\<in>set vs. LTS u = Bool_iface False \<or> LTS u = Nil_iface)"
      by (simp only: f range_versions_NotFound_iff)
  qed
qed

theorem fetchLatestLTS_first_lts_witness:
  "fetchLatestLTS env_index = Inr ''v22.11.0''"
proof -
  let ?resp = "\<lparr>StatusCode = 200, ContentLength = - 1, Body = \<lparr>chunks = [], fin = None\<rparr>\<rparr>"
  let ?v23 = "\<lparr>Version = ''v23.1.0'', LTS = Bool_iface False\<rparr>"
  let ?v22 = "\<lparr>Version = ''v22.11.0'', LTS = String_iface ''Jod''\<rparr>"
  let ?v20 = "\<lparr>Version = ''v20.18.0'', LTS = String_iface ''Iron''\<rparr>"
  have g: "http_Get env_index index_url = Inr ?resp"
    by (simp add: env_index_def env0_def)
  have d: "json_Decode env_index (Body ?resp) = Inr [?v23, ?v22, ?v20]"
    by (simp add: env_index_def env0_def)
  have s: "[?v23, ?v22, ?v20] = [?v23] @ ?v22 # [?v20]
      \<and> (\<forall>u\<in>set [?v23]. LTS u = Bool_iface False \<or> LTS u = Nil_iface)
      \<and> LTS ?v22 \<noteq> Bool_iface False \<and> LTS ?v22 \<noteq> Nil_iface"
    by simp
  from fetchLatestLTS_first_lts [OF g d] s have "fetchLatestLTS env_index = Inr (Version ?v22)"
    by blast
  then show ?thesis by simp
qed

text \<open>
  C3 (as amended). processTarget creates or truncates the file at the output name only once
  the download and the extraction have succeeded: when either fails, the run fails and the
  output path holds what it held before the run (nothing, when there was no such file).
  When the run succeeds, the download, the extraction and the compression succeeded and
  the output file exists.
\<close>

theorem output_only_after_extraction:
  "let tmpFile = outFile @ ''.tmp'';
       exeFile = outFile @ ''.nodebin'';
       w0 = printf (LF # down_arrow @ ''  '' @ zh_download @ '' '' @ buildURL version platform
                     @ '' -> '' @ outFile @ [LF]) w;
       dl = downloadFile env tmpFile (buildURL version platform) platform w0;
       ex = extractNode env tmpFile exeFile platform (snd dl);
       cz = compressZstd env exeFile outFile platform (snd ex);
       pt = processTarget env version outFile platform w
   in (fst dl \<noteq> OK \<or> fst ex \<noteq> OK \<longrightarrow> fst pt \<noteq> OK \<and> files (snd pt) outFile = files w outFile)
    \<and> (fst pt = OK \<longrightarrow>
          fst dl = OK \<and> fst ex = OK \<and> fst cz = OK \<and> files (snd pt) outFile \<noteq> None)"
proof -
  define tmpFile where "tmpFile = outFile @ ''.tmp''"
  define exeFile where "exeFile = outFile @ ''.nodebin''"
  define w0 where "w0 = printf (LF # down_arrow @ ''  '' @ zh_download @ '' '' @ buildURL version platform
                     @ '' -> '' @ outFile @ [LF]) w"
  define dl where "dl = downloadFile env tmpFile (buildURL version platform) platform w0"
  define ex where "ex = extractNode env tmpFile exeFile platform (snd dl)"
  define cz where "cz = compressZstd env exeFile outFile platform (snd ex)"
  define ec where "ec = extract_and_compress env tmpFile outFile platform (snd dl)"
  define pt where "pt = processTarget env version outFile platform w"
  have ne: "outFile \<noteq> tmpFile" "outFile \<noteq> exeFile"
    by (simp_all add: tmpFile_def exeFile_def)
  have f0: "files w0 outFile = files w outFile"
    by (simp add: w0_def printf_files)
  have fdl: "files (snd dl) outFile = files w outFile"
    using downloadFile_other [OF ne(1), of env "buildURL version platform" platform w0] f0
    by (simp add: dl_def)
  have fex: "files (snd ex) outFile = files w outFile"
    using extractNode_other [OF ne(2), of env tmpFile platform "snd dl"] fdl
    by (simp add: ex_def)
  have pt_unfold: "pt = (case dl of
           (OK, w1) \<Rightarrow>
             (case extract_and_compress env tmpFile outFile platform w1 of
                (r, w2) \<Rightarrow> (r, os_Remove env tmpFile w2))
         | (r, w1) \<Rightarrow> (r, w1))"
    unfolding pt_def processTarget_def Let_def dl_def w0_def tmpFile_def ..
  have pt_fail: "fst dl \<noteq> OK \<Longrightarrow> pt = dl"
  proof -
    assume a: "fst dl \<noteq> OK"
    obtain r w1 where d: "dl = (r, w1)" by (cases dl) auto
    with a have "r \<noteq> OK" by simp
    with d show "pt = dl"
      unfolding pt_unfold by (cases r) simp_all
  qed
  have pt_ok: "fst dl = OK \<Longrightarrow> pt = (fst ec, os_Remove env tmpFile (snd ec))"
  proof -
    assume a: "fst dl = OK"
    obtain r w1 where d: "dl = (r, w1)" by (cases dl) auto
    with a have "r = OK" by simp
    with d show "pt = (fst ec, os_Remove env tmpFile (snd ec))"
      unfolding pt_unfold by (simp add: ec_def split: prod.splits)
  qed
  have ec_fail: "fst ex \<noteq> OK \<Longrightarrow> ec = ex"
    using extract_and_compress_fail [of env tmpFile outFile platform "snd dl"]
    by (simp add: ec_def ex_def exeFile_def)
  have ec_ok: "fst ec = OK \<Longrightarrow> fst ex = OK \<and> fst cz = OK \<and> files (snd ec) outFile \<noteq> None"
    using extract_and_compress_OK [of env tmpFile outFile platform "snd dl"]
    by (simp add: ec_def ex_def cz_def exeFile_def)
  have part1: "fst dl \<noteq> OK \<or> fst ex \<noteq> OK \<longrightarrow> fst pt \<noteq> OK \<and> files (snd pt) outFile = files w outFile"
  proof
    assume a: "fst dl \<noteq> OK \<or> fst ex \<noteq> OK"
    show "fst pt \<noteq> OK \<and> files (snd pt) outFile = files w outFile"
    proof (cases "fst dl = OK")
      case False
      with pt_fail fdl show ?thesis by simp
    next
      case True
      with a have x: "fst ex \<noteq> OK" by simp
      with ec_fail have "ec = ex" by simp
      with pt_ok [OF True] x fex ne show ?thesis
        by (simp add: os_Remove_other)
    qed
  qed
  have part2: "fst pt = OK \<longrightarrow>
      fst dl = OK \<and> fst ex = OK \<and> fst cz = OK \<and> files (snd pt) outFile \<noteq> None"
  proof
    assume a: "fst pt = OK"
    have d: "fst dl = OK"
    proof (rule ccontr)
      assume "fst dl \<noteq> OK"
      with pt_fail a show False by simp
    qed
    with pt_ok a have "fst ec = OK" by simp
    with ec_ok have "fst ex = OK" and "fst cz = OK" and "files (snd ec) outFile \<noteq> None"
      by simp_all
    with d pt_ok [OF d] ne
    show "fst dl = OK \<and> fst ex = OK \<and> fst cz = OK \<and> files (snd pt) outFile \<noteq> None"
      by (simp add: os_Remove_other)
  qed
  from part1 part2 show ?thesis
    unfolding Let_def tmpFile_def exeFile_def w0_def dl_def ex_def cz_def pt_def by blast
qed

theorem output_only_after_extraction_witness:
  "fst (processTarget env0 ''v1'' ''node.zst'' ''win-x64'' world0) = Err (Lib TransportError)
   \<and> files (snd (processTarget env0 ''v1'' ''node.zst'' ''win-x64'' world0)) ''node.zst'' = None
   \<and> fst (processTarget env_win_bare ''v1'' ''node.zst'' ''win-x64'' world0)
       = Err (NotFoundError (zh_not_found @ '' node.exe''))
   \<and> files (snd (processTarget env_win_bare ''v1'' ''node.zst'' ''win-x64'' world0)) ''node.zst'' = None
   \<and> fst (processTarget env_win ''v1'' ''node.zst'' ''win-x64'' world0) = OK
   \<and> files (snd (processTarget env_win ''v1'' ''node.zst'' ''win-x64'' world0)) ''node.zst''
       = Some (toy_zstd [77, 90, 1])"
  using output_only_after_extraction [of "''node.zst''" "''v1''" "''win-x64''" world0 env0]
    output_only_after_extraction [of "''node.zst''" "''v1''" "''win-x64''" world0 env_win_bare]
    output_only_after_extraction [of "''node.zst''" "''v1''" "''win-x64''" world0 env_win]
  by (simp add: env0_def world0_def toy_zstd_def win_archive_def env_win_def env_win_bare_def
      os_Open_def file_reader_def chunked.simps os_Create_def
      file_Write_def printf_def of_lib_def io_Copy_def io_Copy_Tee_def Write_def Sub_def
      maxDuration_def minDuration_def Millisecond_def HasSuffix_def HasPrefix_def Let_def downloadFile_def
      zip_OpenReader_def extractNodeFromZip_def extractNodeFromTarXZ_def compressZstd_def Stat_def
      zstd_NewWriter_def sink_Write_def write_block_def nextBlock_def enc_Close_def
      tee_Write_def read_loop.simps ReadFrom_def space_def unread_def processTarget_def extract_and_compress_def extractNode_def
      os_Remove_def buildURL_def)

text \<open>
  The claim as it was stated fails: the read of the extracted executable breaks after its
  first chunk, compressZstd returns the error, and the output file, absent before the run,
  is there, created by \<open>os.Create\<close> and left empty (the encoder keeps the error and its
  \<open>Close\<close> writes nothing).
\<close>

theorem output_left_after_failed_compression:
  "files world0 ''node.zst'' = None
   \<and> fst (processTarget env_read_fault ''v1'' ''node.zst'' ''win-x64'' world0) = Err (Lib IOError)
   \<and> files (snd (processTarget env_read_fault ''v1'' ''node.zst'' ''win-x64'' world0)) ''node.zst''
       = Some []"
  by (simp add: env0_def world0_def toy_zstd_def win_archive_def env_win_def env_read_fault_def
      os_Open_def file_reader_def chunked.simps os_Create_def
      file_Write_def printf_def of_lib_def io_Copy_def io_Copy_Tee_def Write_def Sub_def
      maxDuration_def minDuration_def Millisecond_def HasSuffix_def HasPrefix_def Let_def downloadFile_def
      zip_OpenReader_def extractNodeFromZip_def extractNodeFromTarXZ_def compressZstd_def Stat_def
      zstd_NewWriter_def sink_Write_def write_block_def nextBlock_def enc_Close_def
      tee_Write_def read_loop.simps ReadFrom_def space_def unread_def processTarget_def extract_and_compress_def extractNode_def
      os_Remove_def buildURL_def)

text \<open>
  C4. The claim asks that the intermediate file \<open>outFile.nodebin\<close> is removed whether
  compression succeeds or fails. The code removes it only after compressZstd returned nil:
  here the output file cannot be created, compressZstd fails, and the intermediate file
  stays (the temporary download is removed by its \<open>defer\<close>).
\<close>

theorem intermediate_file_left_after_failed_compression:
  "fst (processTarget env_no_output ''v1'' ''node.zst'' ''win-x64'' world0) = Err (Lib IOError)
   \<and> files (snd (processTarget env_no_output ''v1'' ''node.zst'' ''win-x64'' world0)) ''node.zst.nodebin''
       = Some [77, 90, 1]
   \<and> files (snd (processTarget env_no_output ''v1'' ''node.zst'' ''win-x64'' world0)) ''node.zst.tmp''
       = None"
  by (simp add: env0_def world0_def toy_zstd_def win_archive_def env_win_def env_no_output_def
      os_Open_def file_reader_def chunked.simps os_Create_def
      file_Write_def printf_def of_lib_def io_Copy_def io_Copy_Tee_def Write_def Sub_def
      maxDuration_def minDuration_def Millisecond_def HasSuffix_def HasPrefix_def Let_def downloadFile_def
      zip_OpenReader_def extractNodeFromZip_def extractNodeFromTarXZ_def compressZstd_def Stat_def
      zstd_NewWriter_def sink_Write_def write_block_def nextBlock_def enc_Close_def
      tee_Write_def read_loop.simps ReadFrom_def space_def unread_def processTarget_def extract_and_compress_def extractNode_def
      os_Remove_def buildURL_def)

text \<open>
  C5. For every version and platform identifier the URL is
  \<open><base>/<version>/node-<version>-<platform><ext>\<close>, where the extension is \<open>.zip\<close>
  exactly when the identifier starts with \<open>win\<close>, and \<open>.tar.xz\<close> otherwise.
\<close>

theorem buildURL_shape:
  "\<exists>ext. buildURL version platform =
      ''https://nodejs.org/dist/'' @ version @ ''/node-'' @ version @ ''-'' @ platform @ ext
    \<and> (ext = ''.zip'') = (\<exists>rest. platform = ''win'' @ rest)
    \<and> (ext = ''.zip'' \<or> ext = ''.tar.xz'')"
proof (cases "HasPrefix platform ''win''")
  case True
  then have "\<exists>rest. platform = ''win'' @ rest"
    by (simp add: HasPrefix_iff)
  with True show ?thesis
    by (intro exI [of _ "''.zip''"]) (simp add: buildURL_def)
next
  case False
  then have "\<not> (\<exists>rest. platform = ''win'' @ rest)"
    by (simp add: HasPrefix_iff)
  with False show ?thesis
    by (intro exI [of _ "''.tar.xz''"]) (simp add: buildURL_def)
qed

theorem buildURL_shape_witness:
  "buildURL ''v22.11.0'' ''win-x64'' = ''https://nodejs.org/dist/v22.11.0/node-v22.11.0-win-x64.zip''
   \<and> buildURL ''v22.11.0'' ''linux-armv7l'' = ''https://nodejs.org/dist/v22.11.0/node-v22.11.0-linux-armv7l.tar.xz''"
  using buildURL_shape [of "''v22.11.0''" "''win-x64''"] buildURL_shape [of "''v22.11.0''" "''linux-armv7l''"]
  by (simp add: buildURL_def HasPrefix_def)

text \<open>
  C6. In every state the orchestrator reaches, for any number of targets and any
  interleaving, at most 3 goroutines are between their send to \<open>sem\<close> and their receive
  from it.
\<close>

theorem at_most_three_hold_a_slot: "holders (run sched (main_start n)) \<le> 3"
  using slots_ok_run [OF slots_ok_start, of sched n]
  by (simp add: slots_ok_def sem_cap_def)

theorem at_most_three_hold_a_slot_witness:
  "holders (run [0, 1, 2, 3, 4, 7] (main_start (length targets))) = 3
   \<and> holders (run [0, 1, 2, 3, 4, 7, 1, 7, 3] (main_start (length targets))) = 3"
  using at_most_three_hold_a_slot [of "[0, 1, 2, 3, 4, 7]" "length targets"]
  by (simp add: holders_def main_start_def step_def sem_cap_def targets_def eval_nat_numeral)

text \<open>
  C7. A download or a compression whose stream is set up (the response arrived and the
  file was created; the input was opened, its size read, the output created and the
  encoder made) prints, after the throttled progress lines of that stream, the line with
  100% as its last emission, whatever the clock says and however the copy ends.
\<close>

theorem final_emission_is_100:
  "(http_Get env url = Inr resp \<and> create_err env filename = None \<longrightarrow>
      (\<exists>ps. console (snd (downloadFile env filename url platform w)) =
               console w @ ps @ [Text (CR # zh_download @ ''['' @ platform @ ''] 100%'' @ [LF])]
            \<and> list_all is_Percent ps))
   \<and> (os_Open env input w = Inr inp \<and> Stat env input w = Inr sz \<and> create_err env output = None
        \<and> zstd_NewWriter_err env = None \<longrightarrow>
      (\<exists>ps. console (snd (compressZstd env input output platform w)) =
               console w @ ps @ [Text (CR # zh_compress @ ''['' @ platform @ ''] 100%'' @ [LF])]
            \<and> list_all is_Percent ps))"
  using downloadFile_last [of env url resp filename platform w]
    compressZstd_last [of env input w inp sz "output" platform]
  by blast

theorem final_emission_is_100_witness:
  "console (snd (downloadFile env_win ''node.zst.tmp'' (buildURL ''v1'' ''win-x64'') ''win-x64'' world0))
     = [Percent (zh_download @ ''[win-x64]'') 2 4,
        Text (CR # zh_download @ ''[win-x64] 100%'' @ [LF])]
   \<and> console (snd (compressZstd env0 ''node.zst.nodebin'' ''node.zst'' ''win-x64''
                      (world_with ''node.zst.nodebin'' [77, 90, 1])))
     = [Percent (zh_compress @ ''[win-x64]'') 2 3,
        Text (CR # zh_compress @ ''[win-x64] 100%'' @ [LF])]"
  using final_emission_is_100 [of env_win "buildURL ''v1'' ''win-x64''"
      "\<lparr>StatusCode = 200, ContentLength = 4, Body = \<lparr>chunks = [[80, 75], [3, 4]], fin = None\<rparr>\<rparr>"
      "''node.zst.tmp''" "''win-x64''" world0]
  by (simp add: env0_def world0_def world_with_def toy_zstd_def env_win_def
      os_Open_def file_reader_def chunked.simps os_Create_def
      file_Write_def printf_def of_lib_def io_Copy_def io_Copy_Tee_def Write_def Sub_def
      maxDuration_def minDuration_def Millisecond_def HasSuffix_def HasPrefix_def Let_def downloadFile_def
      zip_OpenReader_def extractNodeFromZip_def extractNodeFromTarXZ_def compressZstd_def Stat_def
      zstd_NewWriter_def sink_Write_def write_block_def nextBlock_def enc_Close_def
      tee_Write_def read_loop.simps ReadFrom_def space_def unread_def processTarget_def extract_and_compress_def extractNode_def
      os_Remove_def buildURL_def)

text \<open>
  C8. downloadFile never looks at the status code: for a response of any status whose body
  reads to its end, into a file that can be created and written, it returns nil and the
  file holds the body.
\<close>

theorem download_ignores_status:
  assumes get: "http_Get env url = Inr \<lparr>StatusCode = code, ContentLength = len, Body = body\<rparr>"
    and eof: "fin body = None"
    and cr: "create_err env filename = None"
    and cap: "capacity env filename = None"
  shows "fst (downloadFile env filename url platform w) = OK \<and>
         files (snd (downloadFile env filename url platform w)) filename = Some (concat (chunks body))"
proof -
  let ?w1 = "w\<lparr>files := (files w)(filename \<mapsto> [])\<rparr>"
  let ?pw = "\<lparr>Total = len, Written = 0, LastUpdate = 0,
              Prefix = zh_download @ ''['' @ platform @ '']''\<rparr>"
  have f: "files ?w1 filename = Some []" by simp
  obtain err out pw1 w2 where t: "tee_chunks env (file_Write env) filename (chunks body) (fin body) ?pw ?w1 = (err, out, pw1, w2)"
    by (cases "tee_chunks env (file_Write env) filename (chunks body) (fin body) ?pw ?w1") auto
  with tee_chunks_unlimited [OF cap f, of "chunks body" "fin body" ?pw] eof
  have "err = None" and "files w2 filename = Some (concat (chunks body))" by simp_all
  with get cr t show ?thesis
    by (simp add: downloadFile_def os_Create_def io_Copy_Tee_def of_lib_None printf_files)
qed

theorem download_ignores_status_witness:
  "fst (downloadFile env_404 ''node.zst.tmp'' (buildURL ''v0'' ''win-x64'') ''win-x64'' world0) = OK
   \<and> files (snd (downloadFile env_404 ''node.zst.tmp'' (buildURL ''v0'' ''win-x64'') ''win-x64'' world0))
        ''node.zst.tmp''
       = Some [78, 111, 116, 32, 70, 111, 117, 110, 100]"
proof -
  let ?body = "\<lparr>chunks = [[78, 111, 116], [32, 70, 111, 117, 110, 100 :: byte]], fin = None\<rparr>"
  have g: "http_Get env_404 (buildURL ''v0'' ''win-x64'')
           = Inr \<lparr>StatusCode = 404, ContentLength = 9, Body = ?body\<rparr>"
    by (simp add: env_404_def env0_def)
  have e: "fin ?body = None" by simp
  have c: "create_err env_404 ''node.zst.tmp'' = None" "capacity env_404 ''node.zst.tmp'' = None"
    by (simp_all add: env_404_def env0_def)
  from download_ignores_status [OF g e c, of "''win-x64''" world0] show ?thesis
    by simp
qed

text \<open>
  C9. For every byte slice and every state of the progress writer (and of the clock),
  \<open>ProgressWriter.Write\<close> returns the length of the slice and a nil error. So a copy
  through the tee returns the error the plain copy returns, into the downloaded file as
  into the encoder (\<open>ReadFrom\<close> with and without the tee): the progress writer is never
  the cause of a failure.
\<close>

theorem Write_returns:
  "fst (Write env pw p w) = (int (length p), None)
   \<and> fst (io_Copy_Tee env (file_Write env) path src pw w) = fst (io_Copy (file_Write env) path src w)
   \<and> fst (ReadFrom env enc src (Some pw) w) = fst (ReadFrom env enc src None w)"
  using tee_chunks_file_error [of w w env path "chunks src" "fin src" pw]
    ReadFrom_tee_error [of env enc src "Some pw" w]
  by (simp add: Write_def Let_def io_Copy_Tee_def io_Copy_def)

theorem Write_returns_witness:
  "fst (Write env0 \<lparr>Total = 4, Written = 0, LastUpdate = 0, Prefix = zh_download @ ''[win-x64]''\<rparr>
          [80, 75, 3] world0) = (3, None)"
  using Write_returns [of env0 "\<lparr>Total = 4, Written = 0, LastUpdate = 0, Prefix = zh_download @ ''[win-x64]''\<rparr>"
      "[80, 75, 3]" world0]
  by simp

text \<open>
  C10 (as amended). compressZstd drops the error of Stat. When Stat fails on the opened
  input, no nil comes back: if the output file can be created and the encoder made, the
  nil file-info is dereferenced and compressZstd panics; if \<open>os.Create\<close> or
  \<open>zstd.NewWriter\<close> fails, that error is returned before the size is asked for.
\<close>

theorem stat_failure_outcome:
  assumes "os_Open env input w = Inr inp" and "stat_err env input = Some e"
  shows "fst (compressZstd env input output platform w) =
           (case create_err env output of
              Some x \<Rightarrow> Err (Lib x)
            | None \<Rightarrow> (case zstd_NewWriter_err env of
                          Some x \<Rightarrow> Err (Lib x)
                        | None \<Rightarrow> Panicked))"
  using assms
  by (simp add: compressZstd_def zstd_NewWriter_def Stat_def os_Create_def split: option.splits)

theorem stat_failure_outcome_witness:
  "fst (compressZstd env_stat_fault ''node.zst.nodebin'' ''node.zst'' ''win-x64''
          (world_with ''node.zst.nodebin'' [77, 90, 1])) = Panicked"
proof -
  let ?w = "world_with ''node.zst.nodebin'' [77, 90, 1]"
  have o: "os_Open env_stat_fault ''node.zst.nodebin'' ?w
           = Inr \<lparr>chunks = [[77, 90], [1]], fin = None\<rparr>"
    by (simp add: env_stat_fault_def env0_def world_with_def os_Open_def file_reader_def chunked.simps os_Create_def
      file_Write_def printf_def of_lib_def io_Copy_def io_Copy_Tee_def Write_def Sub_def
      maxDuration_def minDuration_def Millisecond_def HasSuffix_def HasPrefix_def Let_def)
  have s: "stat_err env_stat_fault ''node.zst.nodebin'' = Some IOError"
    by (simp add: env_stat_fault_def env0_def)
  from stat_failure_outcome [OF o s, of "''node.zst''" "''win-x64''"] show ?thesis
    by (simp add: env_stat_fault_def env0_def)
qed

text \<open>
  The claim as it was stated fails: Stat fails, and so does the creation of the output
  file; compressZstd returns that error and does not panic.
\<close>

theorem stat_failure_without_panic:
  "Stat env_stat_create_fault ''node.zst.nodebin'' (world_with ''node.zst.nodebin'' [77, 90, 1])
     = Inl IOError
   \<and> fst (compressZstd env_stat_create_fault ''node.zst.nodebin'' ''node.zst'' ''win-x64''
          (world_with ''node.zst.nodebin'' [77, 90, 1])) = Err (Lib IOError)"
  by (simp add: env_stat_create_fault_def env0_def world_with_def compressZstd_def
      zstd_NewWriter_def Stat_def
      os_Open_def file_reader_def chunked.simps os_Create_def
      file_Write_def printf_def of_lib_def io_Copy_def io_Copy_Tee_def Write_def Sub_def
      maxDuration_def minDuration_def Millisecond_def HasSuffix_def HasPrefix_def Let_def)

end
